theory Spec2Isabelle
  imports Main "HOL-Library.Word"
begin

section \<open>The checkpoint log of root\_digger (src/checkpoint.cpp)\<close>

text \<open>
  The checkpoint log is a file that holds one configuration header followed by result
  records. Everything \<open>checkpoint.cpp\<close> does goes through POSIX file descriptors, so the
  embedding threads an explicit operating-system state (\<open>world\<close>) through every function
  and returns the thrown exception, if any, as the left summand of the result. A C++
  reference parameter that the function assigns to is returned next to the result, so
  that what was assigned before an exception stays visible.

  The templates and types of \<open>checkpoint.hpp\<close> and \<open>util.hpp\<close> are not part of the
  sources at hand. Where a function of \<open>checkpoint.cpp\<close> calls one of them, the
  definition standing for it is marked as modelled from the specification.
\<close>

subsection \<open>Bytes and the object representation of \<open>size_t\<close>\<close>

type_synonym byte = "8 word"

text \<open>\<open>size_t\<close> is 64 bits wide and stored in the byte order of the host, taken as
  little-endian: the least significant byte comes first.\<close>

fun le_bytes :: "nat \<Rightarrow> nat \<Rightarrow> byte list" where
  "le_bytes 0 n = []"
| "le_bytes (Suc k) n = of_nat (n mod 256) # le_bytes k (n div 256)"

fun le_nat :: "byte list \<Rightarrow> nat" where
  "le_nat [] = 0"
| "le_nat (b # bs) = unat b + 256 * le_nat bs"

definition bytes_of_u64 :: "64 word \<Rightarrow> byte list" where
  "bytes_of_u64 x = le_bytes 8 (unat x)"

definition u64_of_bytes :: "byte list \<Rightarrow> 64 word" where
  "u64_of_bytes bs = of_nat (le_nat bs)"

text \<open>What \<open>std::string(const char *)\<close> takes from a zero-terminated buffer: the bytes
  before the first zero byte.\<close>

definition c_str :: "byte list \<Rightarrow> byte list" where
  "c_str buf = takeWhile (\<lambda>b. b \<noteq> 0) buf"

subsection \<open>The operating system: files, descriptors, system calls\<close>

text \<open>
  An open file description holds the inode it refers to and the file offset; descriptors
  that were duplicated share one description, hence one offset. A directory maps paths to
  inodes. \<open>quota\<close> is the number of bytes the file system still accepts (\<open>None\<close>: no
  limit): a write transfers as many bytes as fit, which is how a short write arises.
  \<open>openable\<close> tells the paths this process may open or create. Inodes, descriptions and
  descriptors are numbered by the counters \<open>next_inode\<close>, \<open>next_ofd\<close> and \<open>next_fd\<close>.
\<close>

record ofd =
  ofd_inode :: nat
  ofd_offset :: nat

record world =
  paths :: "string \<rightharpoonup> nat"
  inodes :: "nat \<Rightarrow> byte list"
  next_inode :: nat
  ofds :: "nat \<Rightarrow> ofd"
  next_ofd :: nat
  fds :: "int \<rightharpoonup> nat"
  next_fd :: int
  quota :: "nat option"
  openable :: "string \<Rightarrow> bool"

datatype whence = SEEK_SET | SEEK_CUR | SEEK_END

definition set_offset :: "nat \<Rightarrow> nat \<Rightarrow> world \<Rightarrow> world" where
  "set_offset k off w = w\<lparr>ofds := (ofds w)(k := (ofds w k)\<lparr>ofd_offset := off\<rparr>)\<rparr>"

definition append_data :: "nat \<Rightarrow> byte list \<Rightarrow> nat \<Rightarrow> world \<Rightarrow> world" where
  "append_data k buf n w =
     (let i = ofd_inode (ofds w k); content = inodes w i @ buf
      in w\<lparr>inodes := (inodes w)(i := content),
            ofds := (ofds w)(k := (ofds w k)\<lparr>ofd_offset := length content\<rparr>),
            quota := map_option (\<lambda>q. q - n) (quota w)\<rparr>)"

text \<open>\<open>access(path, F_OK)\<close>: 0 when the path exists, -1 otherwise.\<close>

definition posix_access :: "string \<Rightarrow> world \<Rightarrow> int" where
  "posix_access path w = (case paths w path of None \<Rightarrow> -1 | Some i \<Rightarrow> 0)"

text \<open>\<open>open(path, flags)\<close> with the two flags that differ between the calls of the
  program, \<open>O_CREAT\<close> and \<open>O_EXCL\<close>. Every descriptor the program writes to is opened
  with \<open>O_APPEND\<close>. The result is the new descriptor, or -1. The new descriptor is the
  next number of the counter: the number of a closed descriptor is not handed out again,
  where \<open>open\<close> returns the lowest free number. Where a statement below names the
  number of a descriptor, no descriptor was closed before that one was opened, and the
  two numberings agree.\<close>

definition posix_open :: "string \<Rightarrow> bool \<Rightarrow> bool \<Rightarrow> world \<Rightarrow> int \<times> world" where
  "posix_open path o_creat o_excl w =
     (if \<not> openable w path then (-1, w)
      else case paths w path of
        Some i \<Rightarrow>
          if o_creat \<and> o_excl then (-1, w)
          else (next_fd w,
                w\<lparr>ofds := (ofds w)(next_ofd w := \<lparr>ofd_inode = i, ofd_offset = 0\<rparr>),
                  next_ofd := next_ofd w + 1,
                  fds := (fds w)(next_fd w \<mapsto> next_ofd w),
                  next_fd := next_fd w + 1\<rparr>)
      | None \<Rightarrow>
          if \<not> o_creat then (-1, w)
          else (next_fd w,
                w\<lparr>paths := (paths w)(path \<mapsto> next_inode w),
                  inodes := (inodes w)(next_inode w := []),
                  next_inode := next_inode w + 1,
                  ofds := (ofds w)(next_ofd w := \<lparr>ofd_inode = next_inode w, ofd_offset = 0\<rparr>),
                  next_ofd := next_ofd w + 1,
                  fds := (fds w)(next_fd w \<mapsto> next_ofd w),
                  next_fd := next_fd w + 1\<rparr>))"

text \<open>\<open>close(fd)\<close>: 0, or -1 when \<open>fd\<close> is not an open descriptor.\<close>

definition posix_close :: "int \<Rightarrow> world \<Rightarrow> int \<times> world" where
  "posix_close fd w =
     (case fds w fd of None \<Rightarrow> (-1, w) | Some k \<Rightarrow> (0, w\<lparr>fds := (fds w)(fd := None)\<rparr>))"

text \<open>\<open>fcntl(fd, F_DUPFD, 0)\<close>: a new descriptor for the same open file description,
  numbered like that of \<open>posix_open\<close>.\<close>

definition posix_dupfd :: "int \<Rightarrow> world \<Rightarrow> int \<times> world" where
  "posix_dupfd fd w =
     (case fds w fd of None \<Rightarrow> (-1, w)
      | Some k \<Rightarrow> (next_fd w, w\<lparr>fds := (fds w)(next_fd w \<mapsto> k), next_fd := next_fd w + 1\<rparr>))"

definition posix_lseek :: "int \<Rightarrow> int \<Rightarrow> whence \<Rightarrow> world \<Rightarrow> int \<times> world" where
  "posix_lseek fd off wh w =
     (case fds w fd of None \<Rightarrow> (-1, w)
      | Some k \<Rightarrow>
          let base = (case wh of SEEK_SET \<Rightarrow> 0
                      | SEEK_CUR \<Rightarrow> int (ofd_offset (ofds w k))
                      | SEEK_END \<Rightarrow> int (length (inodes w (ofd_inode (ofds w k)))))
          in if base + off < 0 then (-1, w)
             else (base + off, set_offset k (nat (base + off)) w))"

text \<open>\<open>read(fd, buf, count)\<close> on a regular file: the bytes from the offset on, at most
  \<open>count\<close> of them; the offset moves past them. The result is their number, or -1.\<close>

definition posix_read :: "int \<Rightarrow> nat \<Rightarrow> world \<Rightarrow> int \<times> byte list \<times> world" where
  "posix_read fd count w =
     (case fds w fd of None \<Rightarrow> (-1, [], w)
      | Some k \<Rightarrow>
          let data = take count (drop (ofd_offset (ofds w k)) (inodes w (ofd_inode (ofds w k))))
          in (int (length data), data, set_offset k (ofd_offset (ofds w k) + length data) w))"

text \<open>\<open>write(fd, buf, count)\<close> on a descriptor in append mode: the bytes go to the end of
  the file, as many as the quota lets through, and the offset follows. The result is
  their number, or -1 when the descriptor is not open or nothing of a non-empty buffer
  could be written. A write of no bytes returns 0 and changes nothing.\<close>

definition posix_write :: "int \<Rightarrow> byte list \<Rightarrow> world \<Rightarrow> int \<times> world" where
  "posix_write fd buf w =
     (case fds w fd of None \<Rightarrow> (-1, w)
      | Some k \<Rightarrow>
          let n = (case quota w of None \<Rightarrow> length buf | Some q \<Rightarrow> min q (length buf))
          in if n = 0 then (if buf = [] then 0 else -1, w)
             else (int n, append_data k (take n buf) n w))"

text \<open>\<open>rename(old, new)\<close>: the new path takes over the inode of the old one.\<close>

definition posix_rename :: "string \<Rightarrow> string \<Rightarrow> world \<Rightarrow> int \<times> world" where
  "posix_rename old new w =
     (case paths w old of None \<Rightarrow> (-1, w)
      | Some i \<Rightarrow> (0, w\<lparr>paths := (paths w)(old := None, new \<mapsto> i)\<rparr>))"

text \<open>\<open>fstat(fd, &statbuf)\<close>: the inode number of the open file, or -1.\<close>

definition posix_fstat_ino :: "int \<Rightarrow> world \<Rightarrow> int \<times> nat" where
  "posix_fstat_ino fd w =
     (case fds w fd of None \<Rightarrow> (-1, 0) | Some k \<Rightarrow> (0, ofd_inode (ofds w k)))"

subsection \<open>Exceptions\<close>

text \<open>
  The three exception classes of \<open>checkpoint.hpp\<close> and \<open>std::runtime_error\<close> with its
  message. In the words of the specification, \<open>checkpoint_write_failure\<close> is
  \<open>WriteFailure\<close>, \<open>checkpoint_read_failure\<close> is \<open>ReadFailure\<close>, and
  \<open>checkpoint_read_success_failure\<close>, the one class that the scan of
  \<open>current_progress\<close> catches and reports as a corrupted file, stands for the corruption
  class (\<open>Corrupt\<close>, \<open>ShortRead\<close>, \<open>ChecksumMismatch\<close>).
\<close>

datatype exn =
  checkpoint_write_failure
| checkpoint_read_failure
| checkpoint_read_success_failure
| runtime_error string

subsection \<open>The generic scalar templates\<close>

text \<open>
  Modelled from the spec: the generic template \<open>write<T>(fd, val)\<close> of \<open>checkpoint.hpp\<close>,
  which is missing. A fixed-width scalar is written as its bytes; a short or failed write
  is a \<open>WriteFailure\<close>; the number of bytes written is returned.
\<close>

definition write_scalar :: "int \<Rightarrow> byte list \<Rightarrow> world \<Rightarrow> (exn + 64 word) \<times> world" where
  "write_scalar fd val w =
     (case posix_write fd val w of (result, w') \<Rightarrow>
        if result < int (length val) then (Inl checkpoint_write_failure, w')
        else (Inr (of_int result), w'))"

text \<open>
  Modelled from the spec: the generic template \<open>read<T>(fd, val)\<close> of \<open>checkpoint.hpp\<close>,
  which is missing. \<open>n\<close> is \<open>sizeof(T)\<close>. Decoding a truncated byte stream for a
  fixed-width scalar is an immediate \<open>Corrupt\<close> failure; a failed read is a
  \<open>ReadFailure\<close>, as in \<open>read<std::string>\<close>. The result is the bytes of the value; the
  number of bytes consumed is their number.
\<close>

definition read_scalar :: "int \<Rightarrow> nat \<Rightarrow> world \<Rightarrow> (exn + byte list) \<times> world" where
  "read_scalar fd n w =
     (case posix_read fd n w of (result, data, w') \<Rightarrow>
        if result < 0 then (Inl checkpoint_read_failure, w')
        else if result < int n then (Inl checkpoint_read_success_failure, w')
        else (Inr data, w'))"

subsection \<open>Strings (lines 10 to 48)\<close>

text \<open>
  \<open>write<std::string>\<close>: the size goes first, and only the result of that first write is
  checked; the result of the write of the characters is added to the total as it is,
  converted to \<open>size_t\<close>.
\<close>

definition write_string :: "int \<Rightarrow> byte list \<Rightarrow> world \<Rightarrow> (exn + 64 word) \<times> world" where
  "write_string fd str w =
     (let string_size = (of_nat (length str) :: 64 word)
      in case posix_write fd (bytes_of_u64 string_size) w of (result, w1) \<Rightarrow>
           if result < 8 then (Inl checkpoint_write_failure, w1)
           else let total_writen = (of_int result :: 64 word)
                in case posix_write fd (take (unat string_size) str) w1 of (result', w2) \<Rightarrow>
                     (Inr (total_writen + of_int result'), w2))"

text \<open>
  \<open>read<std::string>\<close>: the size is read with the generic template. A size of zero
  returns at once and leaves \<open>str\<close> as it was. Otherwise the characters are read into a
  zeroed buffer of \<open>string_size + 1\<close> bytes, and \<open>str\<close> becomes the C string in that
  buffer. The allocation of the buffer is taken to succeed and \<open>string_size + 1\<close> not to
  wrap around: a stored size that no buffer can hold, for which the allocation or the
  read fails, is outside the model, and no statement below reads one.
\<close>

definition read_string :: "int \<Rightarrow> byte list \<Rightarrow> world \<Rightarrow> (exn + 64 word) \<times> byte list \<times> world" where
  "read_string fd str w =
     (case read_scalar fd 8 w of
        (Inl e, w1) \<Rightarrow> (Inl e, str, w1)
      | (Inr size_bytes, w1) \<Rightarrow>
          let total_read = (8 :: 64 word); string_size = u64_of_bytes size_bytes
          in if string_size = 0 then (Inr total_read, str, w1)
             else case posix_read fd (unat string_size) w1 of (result, tmp_str, w2) \<Rightarrow>
                    if result < 0 then (Inl checkpoint_read_failure, str, w2)
                    else (Inr (total_read + of_int result), c_str tmp_str, w2))"

subsection \<open>The configuration snapshot (lines 50 to 109)\<close>

text \<open>
  Modelled from the spec: the member types of \<open>cli_options_t\<close>, declared in \<open>util.hpp\<close>,
  which is missing. The snapshot is an aggregate of text (file paths, the prefix, model
  descriptions), fixed-width numbers (categories, seed, counts and tolerances, each taken
  as 64 bits wide and kept as its bit pattern) and boolean flags (one byte). \<open>states\<close> is
  the member whose line is commented out in both functions.
\<close>

record cli_options_t =
  msa_filename :: "byte list"
  tree_filename :: "byte list"
  prefix :: "byte list"
  model_filename :: "byte list"
  freqs_filename :: "byte list"
  partition_filename :: "byte list"
  data_type :: "byte list"
  model_string :: "byte list"
  rate_cats :: "64 word"
  rate_category_types :: "64 word"
  seed :: "64 word"
  min_roots :: "64 word"
  threads :: "64 word"
  root_ratio :: "64 word"
  abs_tolerance :: "64 word"
  factor :: "64 word"
  br_tolerance :: "64 word"
  bfgs_tol :: "64 word"
  states :: "64 word"
  silent :: bool
  exhaustive :: bool
  echo :: bool
  invariant_sites :: bool
  early_stop :: bool

text \<open>
  Modelled from the spec: a default-constructed \<open>cli_options_t\<close>; the initialisers of the
  members are in the missing \<open>util.hpp\<close>. Its strings are empty. The values of the other
  members do not matter to any function here: a read that returns has assigned them.
\<close>

definition default_options :: cli_options_t where
  "default_options =
     \<lparr>msa_filename = [], tree_filename = [], prefix = [], model_filename = [],
      freqs_filename = [], partition_filename = [], data_type = [], model_string = [],
      rate_cats = 0, rate_category_types = 0, seed = 0, min_roots = 0, threads = 0,
      root_ratio = 0, abs_tolerance = 0, factor = 0, br_tolerance = 0, bfgs_tol = 0,
      states = 0, silent = False, exhaustive = False, echo = False,
      invariant_sites = False, early_stop = False\<rparr>"

text \<open>
  The overloads of \<open>write\<close> and \<open>read\<close> are chosen by the type of the member. A member is
  passed on with its kind: \<open>Text\<close> goes to the string functions above, \<open>Scalar\<close> and
  \<open>Flag\<close> to the generic templates.
\<close>

datatype fieldv = Text "byte list" | Scalar "64 word" | Flag bool

fun text_of :: "fieldv \<Rightarrow> byte list" where
  "text_of (Text s) = s"
| "text_of (Scalar x) = []"
| "text_of (Flag b) = []"

fun scalar_of :: "fieldv \<Rightarrow> 64 word" where
  "scalar_of (Scalar x) = x"
| "scalar_of (Text s) = 0"
| "scalar_of (Flag b) = 0"

fun flag_of :: "fieldv \<Rightarrow> bool" where
  "flag_of (Flag b) = b"
| "flag_of (Text s) = False"
| "flag_of (Scalar x) = False"

fun write_field :: "int \<Rightarrow> fieldv \<Rightarrow> world \<Rightarrow> (exn + 64 word) \<times> world" where
  "write_field fd (Text s) w = write_string fd s w"
| "write_field fd (Scalar x) w = write_scalar fd (bytes_of_u64 x) w"
| "write_field fd (Flag b) w = write_scalar fd [if b then 1 else 0] w"

fun read_field :: "int \<Rightarrow> fieldv \<Rightarrow> world \<Rightarrow> (exn + 64 word) \<times> fieldv \<times> world" where
  "read_field fd (Text s) w =
     (case read_string fd s w of (r, s', w') \<Rightarrow> (r, Text s', w'))"
| "read_field fd (Scalar x) w =
     (case read_scalar fd 8 w of
        (Inl e, w') \<Rightarrow> (Inl e, Scalar x, w')
      | (Inr bs, w') \<Rightarrow> (Inr 8, Scalar (u64_of_bytes bs), w'))"
| "read_field fd (Flag b) w =
     (case read_scalar fd 1 w of
        (Inl e, w') \<Rightarrow> (Inl e, Flag b, w')
      | (Inr bs, w') \<Rightarrow> (Inr 1, Flag (bs \<noteq> [0]), w'))"

text \<open>One \<open>total_written += write(fd, member)\<close> after the other; an exception ends the
  sequence.\<close>

fun write_all :: "int \<Rightarrow> fieldv list \<Rightarrow> world \<Rightarrow> (exn + 64 word) \<times> world" where
  "write_all fd [] w = (Inr 0, w)"
| "write_all fd (f # fs) w =
     (case write_field fd f w of
        (Inl e, w') \<Rightarrow> (Inl e, w')
      | (Inr n, w') \<Rightarrow>
          (case write_all fd fs w' of
             (Inl e, w'') \<Rightarrow> (Inl e, w'')
           | (Inr m, w'') \<Rightarrow> (Inr (n + m), w'')))"

text \<open>One \<open>total_read += read(fd, member)\<close> after the other. The members read before an
  exception keep what was read into them.\<close>

fun read_all :: "int \<Rightarrow> fieldv list \<Rightarrow> world \<Rightarrow> (exn + 64 word) \<times> fieldv list \<times> world" where
  "read_all fd [] w = (Inr 0, [], w)"
| "read_all fd (f # fs) w =
     (case read_field fd f w of
        (Inl e, f', w') \<Rightarrow> (Inl e, f' # fs, w')
      | (Inr n, f', w') \<Rightarrow>
          (case read_all fd fs w' of
             (Inl e, fs', w'') \<Rightarrow> (Inl e, f' # fs', w'')
           | (Inr m, fs', w'') \<Rightarrow> (Inr (n + m), f' # fs', w'')))"

text \<open>The members in the order of the lines of \<open>write<cli_options_t>\<close> and
  \<open>read<cli_options_t>\<close>, which is the same in both.\<close>

definition options_fields :: "cli_options_t \<Rightarrow> fieldv list" where
  "options_fields options =
     [Text (msa_filename options),
      Text (tree_filename options),
      Text (prefix options),
      Text (model_filename options),
      Text (freqs_filename options),
      Text (partition_filename options),
      Text (data_type options),
      Text (model_string options),
      Scalar (rate_cats options),
      Scalar (rate_category_types options),
      Scalar (seed options),
      Scalar (min_roots options),
      Scalar (threads options),
      Scalar (root_ratio options),
      Scalar (abs_tolerance options),
      Scalar (factor options),
      Scalar (br_tolerance options),
      Scalar (bfgs_tol options),
      Flag (silent options),
      Flag (exhaustive options),
      Flag (echo options),
      Flag (invariant_sites options),
      Flag (early_stop options)]"

definition assign_fields :: "fieldv list \<Rightarrow> cli_options_t \<Rightarrow> cli_options_t" where
  "assign_fields fs options =
     options\<lparr>msa_filename := text_of (fs ! 0),
       tree_filename := text_of (fs ! 1),
       prefix := text_of (fs ! 2),
       model_filename := text_of (fs ! 3),
       freqs_filename := text_of (fs ! 4),
       partition_filename := text_of (fs ! 5),
       data_type := text_of (fs ! 6),
       model_string := text_of (fs ! 7),
       rate_cats := scalar_of (fs ! 8),
       rate_category_types := scalar_of (fs ! 9),
       seed := scalar_of (fs ! 10),
       min_roots := scalar_of (fs ! 11),
       threads := scalar_of (fs ! 12),
       root_ratio := scalar_of (fs ! 13),
       abs_tolerance := scalar_of (fs ! 14),
       factor := scalar_of (fs ! 15),
       br_tolerance := scalar_of (fs ! 16),
       bfgs_tol := scalar_of (fs ! 17),
       silent := flag_of (fs ! 18),
       exhaustive := flag_of (fs ! 19),
       echo := flag_of (fs ! 20),
       invariant_sites := flag_of (fs ! 21),
       early_stop := flag_of (fs ! 22)\<rparr>"

definition write_cli_options :: "int \<Rightarrow> cli_options_t \<Rightarrow> world \<Rightarrow> (exn + 64 word) \<times> world" where
  "write_cli_options fd options w = write_all fd (options_fields options) w"

definition read_cli_options ::
  "int \<Rightarrow> cli_options_t \<Rightarrow> world \<Rightarrow> (exn + 64 word) \<times> cli_options_t \<times> world" where
  "read_cli_options fd options w =
     (case read_all fd (options_fields options) w of
        (r, fs, w') \<Rightarrow> (r, assign_fields fs options, w'))"

subsection \<open>Framing\<close>

text \<open>The size \<open>write<std::string>\<close> and the generic template give a member on disk.\<close>

fun field_size :: "fieldv \<Rightarrow> nat" where
  "field_size (Text s) = 8 + length s"
| "field_size (Scalar x) = 8"
| "field_size (Flag b) = 1"

definition options_size :: "cli_options_t \<Rightarrow> 64 word" where
  "options_size options = of_nat (sum_list (map field_size (options_fields options)))"

text \<open>
  Modelled from the spec: \<open>write_with_success\<close> of \<open>checkpoint.hpp\<close>, which is missing.
  The header is framed as \<open>length:u64 payload:bytes[length]\<close>, without a checksum; the
  payload is what \<open>write<cli_options_t>\<close> writes. A write that transfers less is a
  \<open>WriteFailure\<close>. The result is the number of bytes written.
\<close>

definition write_with_success :: "int \<Rightarrow> cli_options_t \<Rightarrow> world \<Rightarrow> (exn + 64 word) \<times> world" where
  "write_with_success fd options w =
     (case write_scalar fd (bytes_of_u64 (options_size options)) w of
        (Inl e, w1) \<Rightarrow> (Inl e, w1)
      | (Inr n, w1) \<Rightarrow>
          (case write_cli_options fd options w1 of
             (Inl e, w2) \<Rightarrow> (Inl e, w2)
           | (Inr m, w2) \<Rightarrow>
               if m \<noteq> options_size options then (Inl checkpoint_write_failure, w2)
               else (Inr (n + m), w2)))"

text \<open>
  Modelled from the spec: \<open>read_with_success\<close> of \<open>checkpoint.hpp\<close>, which is missing. It
  reads the length, then the payload with \<open>read<cli_options_t>\<close>; a header that cannot be
  decoded, because the payload read is not of the declared length, is a \<open>ReadFailure\<close>.
  The result is the number of bytes consumed.
\<close>

definition read_with_success ::
  "int \<Rightarrow> cli_options_t \<Rightarrow> world \<Rightarrow> (exn + 64 word) \<times> cli_options_t \<times> world" where
  "read_with_success fd options w =
     (case read_scalar fd 8 w of
        (Inl e, w1) \<Rightarrow> (Inl e, options, w1)
      | (Inr len_bytes, w1) \<Rightarrow>
          (case read_cli_options fd options w1 of
             (Inl e, options', w2) \<Rightarrow> (Inl e, options', w2)
           | (Inr m, options', w2) \<Rightarrow>
               if m \<noteq> u64_of_bytes len_bytes then (Inl checkpoint_read_failure, options', w2)
               else (Inr (8 + m), options', w2)))"

text \<open>
  Modelled from the spec: \<open>rd_result_t\<close> of the missing headers. A result record carries
  its identifier \<open>root_id\<close>, a \<open>size_t\<close>, and the result fields of the caller, which one
  64-bit field stands for.
\<close>

record rd_result_t =
  root_id :: "64 word"
  payload :: "64 word"

text \<open>
  Modelled from the spec: the encoding of an \<open>rd_result_t\<close> by the missing generic
  template, the concatenation of the encodings of its fields in order.
\<close>

definition encode_result :: "rd_result_t \<Rightarrow> byte list" where
  "encode_result r = bytes_of_u64 (root_id r) @ bytes_of_u64 (payload r)"

text \<open>
  Modelled from the spec: the decoding of an \<open>rd_result_t\<close> by the missing generic
  template. A payload too short for the fields is \<open>Corrupt\<close> (\<open>None\<close>); bytes beyond
  them are not looked at.
\<close>

definition decode_result :: "byte list \<Rightarrow> rd_result_t option" where
  "decode_result bs =
     (if length bs < 16 then None
      else Some \<lparr>root_id = u64_of_bytes (take 8 bs),
                 payload = u64_of_bytes (take 8 (drop 8 bs))\<rparr>)"

text \<open>
  Modelled from the spec: \<open>write_with_checksum\<close> of \<open>checkpoint.hpp\<close>, which is missing.
  It encodes the value, computes a checksum over the encoded bytes, and writes
  \<open>length:u64 checksum:u64 payload:bytes[length]\<close>; a short write is a \<open>WriteFailure\<close>;
  the result is the number of bytes written. The checksum function is not specified: it
  is the parameter \<open>cs\<close>.
\<close>

definition write_with_checksum ::
  "(byte list \<Rightarrow> 64 word) \<Rightarrow> int \<Rightarrow> rd_result_t \<Rightarrow> world \<Rightarrow> (exn + 64 word) \<times> world" where
  "write_with_checksum cs fd val w =
     (let encoded = encode_result val
      in case write_scalar fd (bytes_of_u64 (of_nat (length encoded))) w of
           (Inl e, w1) \<Rightarrow> (Inl e, w1)
         | (Inr n1, w1) \<Rightarrow>
             (case write_scalar fd (bytes_of_u64 (cs encoded)) w1 of
                (Inl e, w2) \<Rightarrow> (Inl e, w2)
              | (Inr n2, w2) \<Rightarrow>
                  (case write_scalar fd encoded w2 of
                     (Inl e, w3) \<Rightarrow> (Inl e, w3)
                   | (Inr n3, w3) \<Rightarrow> (Inr (n1 + n2 + n3), w3))))"

text \<open>
  Modelled from the spec: \<open>read_with_checksum\<close> of \<open>checkpoint.hpp\<close>, which is missing. It
  reads the length and the checksum, then exactly that many further bytes, and recomputes
  the checksum: fewer bytes than declared are a \<open>ShortRead\<close>, a different checksum is a
  \<open>ChecksumMismatch\<close>. The result is the number of bytes consumed.
\<close>

definition read_with_checksum ::
  "(byte list \<Rightarrow> 64 word) \<Rightarrow> int \<Rightarrow> rd_result_t \<Rightarrow> world
     \<Rightarrow> (exn + 64 word) \<times> rd_result_t \<times> world" where
  "read_with_checksum cs fd val w =
     (case read_scalar fd 8 w of
        (Inl e, w1) \<Rightarrow> (Inl e, val, w1)
      | (Inr len_bytes, w1) \<Rightarrow>
          (case read_scalar fd 8 w1 of
             (Inl e, w2) \<Rightarrow> (Inl e, val, w2)
           | (Inr sum_bytes, w2) \<Rightarrow>
               (case read_scalar fd (unat (u64_of_bytes len_bytes)) w2 of
                  (Inl e, w3) \<Rightarrow> (Inl e, val, w3)
                | (Inr encoded, w3) \<Rightarrow>
                    if cs encoded \<noteq> u64_of_bytes sum_bytes
                    then (Inl checkpoint_read_success_failure, val, w3)
                    else (case decode_result encoded of
                            None \<Rightarrow> (Inl checkpoint_read_success_failure, val, w3)
                          | Some val' \<Rightarrow> (Inr (16 + u64_of_bytes len_bytes), val', w3)))))"

text \<open>
  Modelled from the spec: \<open>expected_read_size<rd_result_t>()\<close> of \<open>checkpoint.hpp\<close>, which
  is missing: the size of a framed record, length and checksum and encoded record.
\<close>

definition expected_read_size :: "64 word" where
  "expected_read_size = 8 + 8 + 16"

subsection \<open>The checkpoint log (lines 111 to 250)\<close>

text \<open>
  The members of \<open>checkpoint_t\<close> that the functions use. The advisory lock that
  \<open>write_lock\<close> takes is between processes; with one process in the model it is always
  granted and leaves no trace, so the lock guards are left out.
\<close>

record checkpoint_t =
  checkpoint_filename :: string
  existing_results :: bool
  file_descriptor :: int

text \<open>The constructor: the existence check comes before the \<open>open\<close> that may create the
  file.\<close>

definition checkpoint_t_ctor :: "string \<Rightarrow> world \<Rightarrow> (exn + checkpoint_t) \<times> world" where
  "checkpoint_t_ctor prfx w =
     (let fname = prfx @ ''.ckp'';
          existing = (posix_access fname w \<noteq> -1)
      in case posix_open fname True False w of (fd, w') \<Rightarrow>
           if fd = -1 then (Inl (runtime_error ''Failed to open the checkpoint file''), w')
           else (Inr \<lparr>checkpoint_filename = fname, existing_results = existing,
                      file_descriptor = fd\<rparr>, w'))"

text \<open>\<open>checkpoint_t::write\<close>.\<close>

definition write_result ::
  "(byte list \<Rightarrow> 64 word) \<Rightarrow> checkpoint_t \<Rightarrow> rd_result_t \<Rightarrow> world \<Rightarrow> (exn + unit) \<times> world" where
  "write_result cs c result w =
     (case write_with_checksum cs (file_descriptor c) result w of
        (Inl e, w') \<Rightarrow> (Inl e, w')
      | (Inr n, w') \<Rightarrow> (Inr (), w'))"

definition save_options :: "checkpoint_t \<Rightarrow> cli_options_t \<Rightarrow> world \<Rightarrow> (exn + unit) \<times> world" where
  "save_options c options w =
     (if \<not> existing_results c
      then (case write_with_success (file_descriptor c) options w of
              (Inl e, w') \<Rightarrow> (Inl e, w')
            | (Inr n, w') \<Rightarrow> (Inr (), w'))
      else (Inr (), w))"

text \<open>\<open>load_options\<close> opens a descriptor of its own, read-only, and does not check it.\<close>

definition load_options ::
  "checkpoint_t \<Rightarrow> cli_options_t \<Rightarrow> world \<Rightarrow> (exn + unit) \<times> cli_options_t \<times> world" where
  "load_options c options w =
     (if existing_results c
      then (case posix_open (checkpoint_filename c) False False w of (read_fd, w1) \<Rightarrow>
              (case read_with_success read_fd options w1 of
                 (Inl e, options', w2) \<Rightarrow> (Inl e, options', w2)
               | (Inr n, options', w2) \<Rightarrow> (Inr (), options', w2)))
      else (Inr (), options, w))"

text \<open>
  The loop of \<open>current_progress\<close>. Only \<open>checkpoint_read_success_failure\<close> is caught; it
  ends the loop like the \<open>break\<close> of a read of zero bytes. Any other exception of the
  read, and the \<open>std::runtime_error\<close> for an unexpected size, leave the function. \<open>rdr\<close>
  is declared anew, without a value, in every round: \<open>fresh\<close> stands for what it holds.
\<close>

partial_function (option) scan_loop ::
  "(byte list \<Rightarrow> 64 word) \<Rightarrow> int \<Rightarrow> int \<Rightarrow> rd_result_t
     \<Rightarrow> int \<times> rd_result_t list \<times> world \<Rightarrow> ((exn + rd_result_t list) \<times> world) option" where
  "scan_loop cs current_fd end_position fresh st =
     (case st of (current_position, results, w) \<Rightarrow>
        if current_position < end_position
        then (case read_with_checksum cs current_fd fresh w of
                (Inl e, rdr, w1) \<Rightarrow>
                  (case e of
                     checkpoint_read_success_failure \<Rightarrow> Some (Inr results, w1)
                   | checkpoint_write_failure \<Rightarrow> Some (Inl e, w1)
                   | checkpoint_read_failure \<Rightarrow> Some (Inl e, w1)
                   | runtime_error msg \<Rightarrow> Some (Inl e, w1))
              | (Inr bytes_read, rdr, w1) \<Rightarrow>
                  if bytes_read = expected_read_size
                  then (case posix_lseek current_fd 0 SEEK_CUR w1 of (pos, w2) \<Rightarrow>
                          scan_loop cs current_fd end_position fresh (pos, results @ [rdr], w2))
                  else if bytes_read = 0 then Some (Inr results, w1)
                  else Some (Inl (runtime_error
                         ''Unexpected read size when loading results from the checkpoint''), w1))
        else Some (Inr results, w))"

text \<open>\<open>current_progress\<close>: the header is read, and its value dropped, outside the
  \<open>try\<close> block. The duplicated descriptor is closed only when the loop ends without an
  exception.\<close>

definition current_progress ::
  "(byte list \<Rightarrow> 64 word) \<Rightarrow> rd_result_t \<Rightarrow> checkpoint_t \<Rightarrow> world
     \<Rightarrow> ((exn + rd_result_t list) \<times> world) option" where
  "current_progress cs fresh c w =
     (case posix_dupfd (file_descriptor c) w of (current_fd, w1) \<Rightarrow>
       (case posix_lseek current_fd 0 SEEK_SET w1 of (r0, w2) \<Rightarrow>
         (case read_with_success current_fd default_options w2 of
            (Inl e, tmp_opts, w3) \<Rightarrow> Some (Inl e, w3)
          | (Inr n, tmp_opts, w3) \<Rightarrow>
              (case posix_lseek current_fd 0 SEEK_CUR w3 of (current_position, w4) \<Rightarrow>
                (case posix_lseek current_fd 0 SEEK_END w4 of (end_position, w5) \<Rightarrow>
                  (case posix_lseek current_fd current_position SEEK_SET w5 of (r1, w6) \<Rightarrow>
                    (case scan_loop cs current_fd end_position fresh
                            (current_position, [], w6) of
                       None \<Rightarrow> None
                     | Some (Inl e, w7) \<Rightarrow> Some (Inl e, w7)
                     | Some (Inr results, w7) \<Rightarrow>
                         (case posix_close current_fd w7 of (r2, w8) \<Rightarrow>
                            Some (Inr results, w8)))))))))"

definition completed_indicies ::
  "(byte list \<Rightarrow> 64 word) \<Rightarrow> rd_result_t \<Rightarrow> checkpoint_t \<Rightarrow> world
     \<Rightarrow> ((exn + 64 word list) \<times> world) option" where
  "completed_indicies cs fresh c w =
     (case current_progress cs fresh c w of
        None \<Rightarrow> None
      | Some (Inl e, w') \<Rightarrow> Some (Inl e, w')
      | Some (Inr results, w') \<Rightarrow> Some (Inr (map root_id results), w'))"

text \<open>The \<open>for\<close> loop of \<open>clean\<close> over the results.\<close>

fun write_results ::
  "(byte list \<Rightarrow> 64 word) \<Rightarrow> int \<Rightarrow> rd_result_t list \<Rightarrow> world \<Rightarrow> (exn + unit) \<times> world" where
  "write_results cs fd [] w = (Inr (), w)"
| "write_results cs fd (result # progress) w =
     (case write_with_checksum cs fd result w of
        (Inl e, w') \<Rightarrow> (Inl e, w')
      | (Inr n, w') \<Rightarrow> write_results cs fd progress w')"

text \<open>\<open>clean\<close>; \<open>rank\<close> is the value of \<open>__MPI_RANK__\<close>. The header is read from
  \<open>_file_descriptor\<close> itself, at the offset it has. The results of \<open>close\<close> and
  \<open>rename\<close> are not looked at.\<close>

definition clean ::
  "(byte list \<Rightarrow> 64 word) \<Rightarrow> rd_result_t \<Rightarrow> nat \<Rightarrow> checkpoint_t \<Rightarrow> world
     \<Rightarrow> ((exn + unit) \<times> world) option" where
  "clean cs fresh rank c w =
     (if \<not> existing_results c then Some (Inr (), w)
      else let backup_filename = checkpoint_filename c @ ''.bak''
        in if rank = 0
           then (case posix_open backup_filename True True w of (copy_fd, w1) \<Rightarrow>
             if copy_fd = -1
             then Some (Inl (runtime_error
                    ''Failed to open the new checkpoint when cleaning the checkpoint''), w1)
             else (case read_with_success (file_descriptor c) default_options w1 of
                (Inl e, options, w2) \<Rightarrow> Some (Inl e, w2)
              | (Inr n, options, w2) \<Rightarrow>
                  (case write_with_success copy_fd options w2 of
                     (Inl e, w3) \<Rightarrow> Some (Inl e, w3)
                   | (Inr m, w3) \<Rightarrow>
                       (case current_progress cs fresh c w3 of
                          None \<Rightarrow> None
                        | Some (Inl e, w4) \<Rightarrow> Some (Inl e, w4)
                        | Some (Inr progress, w4) \<Rightarrow>
                            (case write_results cs copy_fd progress w4 of
                               (Inl e, w5) \<Rightarrow> Some (Inl e, w5)
                             | (Inr u, w5) \<Rightarrow>
                                 (case posix_close copy_fd w5 of (r0, w6) \<Rightarrow>
                                   (case posix_rename backup_filename
                                           (checkpoint_filename c) w6 of
                                      (r1, w7) \<Rightarrow> Some (Inr (), w7))))))))
           else Some (Inr (), w))"

definition existing_checkpoint :: "checkpoint_t \<Rightarrow> bool" where
  "existing_checkpoint c = existing_results c"

text \<open>\<open>get_inode\<close> returns an \<open>int\<close>: the inode number is cut to 32 bits.\<close>

definition get_inode :: "checkpoint_t \<Rightarrow> world \<Rightarrow> exn + 32 word" where
  "get_inode c w =
     (case posix_fstat_ino (file_descriptor c) w of (ret, ino) \<Rightarrow>
        if ret = -1
        then Inl (runtime_error ''There was an error getting the INODE of the checkpoint'')
        else Inr (of_nat ino))"

text \<open>The destructor closes the descriptor, whatever it is; the result is that of
  \<open>close\<close>.\<close>

definition checkpoint_t_dtor :: "checkpoint_t \<Rightarrow> world \<Rightarrow> int \<times> world" where
  "checkpoint_t_dtor c w = posix_close (file_descriptor c) w"

text \<open>
  The move constructor and the move assignment assign \<open>_file_descriptor\<close> and nothing
  else; \<open>other\<close> is not written to. The results are the destination and the source after
  the move. In the constructed object the file name is default-constructed and
  \<open>_existing_results\<close> has no initialiser: \<open>flag\<close> stands for what it holds.
\<close>

definition checkpoint_t_move :: "bool \<Rightarrow> checkpoint_t \<Rightarrow> checkpoint_t \<times> checkpoint_t" where
  "checkpoint_t_move flag other =
     (\<lparr>checkpoint_filename = [], existing_results = flag,
       file_descriptor = file_descriptor other\<rparr>, other)"

definition checkpoint_t_move_assign ::
  "checkpoint_t \<Rightarrow> checkpoint_t \<Rightarrow> checkpoint_t \<times> checkpoint_t" where
  "checkpoint_t_move_assign this other =
     (this\<lparr>file_descriptor := file_descriptor other\<rparr>, other)"

text \<open>\<open>reload\<close>: the member holds the result of \<open>open\<close> before that result is checked.\<close>

definition reload :: "checkpoint_t \<Rightarrow> world \<Rightarrow> (exn + unit) \<times> checkpoint_t \<times> world" where
  "reload c w =
     (case posix_close (file_descriptor c) w of (r0, w1) \<Rightarrow>
       (case posix_open (checkpoint_filename c) True False w1 of (fd, w2) \<Rightarrow>
          if fd = -1
          then (Inl (runtime_error ''Failed to reload the checkpoint file''),
                c\<lparr>file_descriptor := fd\<rparr>, w2)
          else (Inr (), c\<lparr>file_descriptor := fd\<rparr>, w2)))"

subsection \<open>What the functions put on disk\<close>

text \<open>
  The bytes that \<open>write<std::string>\<close>, the writers of the members, \<open>write_with_success\<close>
  and \<open>write_with_checksum\<close> append when every write goes through: a string is its size
  and its bytes, the header is the size of the payload and the members in order, and a
  result record is the frame of length, checksum and encoded record.
\<close>

definition enc_string :: "byte list \<Rightarrow> byte list" where
  "enc_string s = bytes_of_u64 (of_nat (length s)) @ s"

fun enc_field :: "fieldv \<Rightarrow> byte list" where
  "enc_field (Text s) = enc_string s"
| "enc_field (Scalar x) = bytes_of_u64 x"
| "enc_field (Flag b) = [if b then 1 else 0]"

definition enc_fields :: "fieldv list \<Rightarrow> byte list" where
  "enc_fields fs = concat (map enc_field fs)"

definition header_bytes :: "cli_options_t \<Rightarrow> byte list" where
  "header_bytes options =
     bytes_of_u64 (options_size options) @ enc_fields (options_fields options)"

definition frame :: "(byte list \<Rightarrow> 64 word) \<Rightarrow> rd_result_t \<Rightarrow> byte list" where
  "frame cs r = bytes_of_u64 16 @ bytes_of_u64 (cs (encode_result r)) @ encode_result r"

definition frames :: "(byte list \<Rightarrow> 64 word) \<Rightarrow> rd_result_t list \<Rightarrow> byte list" where
  "frames cs rs = concat (map (frame cs) rs)"

text \<open>The texts of a configuration have a length that a \<open>size_t\<close> holds (\<open>sized\<close>), as
  every \<open>std::string\<close> has; they are C strings when, moreover, no byte of them is zero.\<close>

definition sized :: "cli_options_t \<Rightarrow> bool" where
  "sized options =
     list_all
       (\<lambda>f. case f of Text s \<Rightarrow> length s < 2 ^ 64 | Scalar x \<Rightarrow> True | Flag b \<Rightarrow> True)
       (options_fields options)"

definition c_strings :: "cli_options_t \<Rightarrow> bool" where
  "c_strings options =
     list_all
       (\<lambda>f. case f of Text s \<Rightarrow> 0 \<notin> set s \<and> length s < 2 ^ 64
              | Scalar x \<Rightarrow> True | Flag b \<Rightarrow> True)
       (options_fields options)"

text \<open>
  A tail of the file is corrupt at its first record when it is not empty and a read of a
  record from it comes up short (fewer than 16 bytes for length and checksum, or fewer
  bytes after them than the length declares) or finds another checksum than the stored
  one.
\<close>

definition corrupt_record :: "(byte list \<Rightarrow> 64 word) \<Rightarrow> byte list \<Rightarrow> bool" where
  "corrupt_record cs tail \<longleftrightarrow>
     tail \<noteq> [] \<and>
     (length tail < 16 \<or>
      (let len = unat (u64_of_bytes (take 8 tail));
           sum = u64_of_bytes (take 8 (drop 8 tail));
           body = drop 16 tail
       in length body < len \<or> cs (take len body) \<noteq> sum))"

subsection \<open>Vocabulary of the proofs\<close>

text \<open>
  \<open>rd fd k w bs\<close>: descriptor \<open>fd\<close> is open on description \<open>k\<close>, and \<open>bs\<close> are the bytes
  from its offset to the end of the file. \<open>skip\<close> moves the offset on. \<open>wr fd k w\<close>: the
  descriptor is open and no quota limits the writes. \<open>app\<close> is the effect of a write that
  goes through, \<open>after_scan\<close> the effect of \<open>current_progress\<close> on the descriptor table,
  and \<open>grows\<close> says that every file keeps its content as a prefix.
\<close>

definition rd :: "int \<Rightarrow> nat \<Rightarrow> world \<Rightarrow> byte list \<Rightarrow> bool" where
  "rd fd k w bs \<longleftrightarrow> fds w fd = Some k
     \<and> drop (ofd_offset (ofds w k)) (inodes w (ofd_inode (ofds w k))) = bs"

definition skip :: "nat \<Rightarrow> nat \<Rightarrow> world \<Rightarrow> world" where
  "skip k n w = set_offset k (ofd_offset (ofds w k) + n) w"

definition wr :: "int \<Rightarrow> nat \<Rightarrow> world \<Rightarrow> bool" where
  "wr fd k w \<longleftrightarrow> fds w fd = Some k \<and> quota w = None"

definition app :: "nat \<Rightarrow> byte list \<Rightarrow> world \<Rightarrow> world" where
  "app k buf w = (if buf = [] then w else append_data k buf (length buf) w)"

definition after_scan :: "nat \<Rightarrow> nat \<Rightarrow> world \<Rightarrow> world" where
  "after_scan k off w =
     (set_offset k off w)\<lparr>fds := (fds w)(next_fd w := None), next_fd := next_fd w + 1\<rparr>"

definition grows :: "world \<Rightarrow> world \<Rightarrow> bool" where
  "grows w w' \<longleftrightarrow> (\<forall>i. \<exists>ys. inodes w' i = inodes w i @ ys)"

text \<open>What a read of the member \<open>v\<close> from disk leaves in the member \<open>dst\<close>, when the kinds
  agree (\<open>compat\<close>), and what \<open>read<cli_options_t>\<close> makes of \<open>dst\<close> when the header of
  \<open>options\<close> is on disk.\<close>

fun compat :: "fieldv \<Rightarrow> fieldv \<Rightarrow> bool" where
  "compat (Text d) (Text s) = (length s < 2 ^ 64)"
| "compat (Scalar d) (Scalar x) = True"
| "compat (Flag d) (Flag b) = True"
| "compat d v = False"

fun dec_field :: "fieldv \<Rightarrow> fieldv \<Rightarrow> fieldv" where
  "dec_field dst (Text s) = Text (if s = [] then text_of dst else c_str s)"
| "dec_field dst (Scalar x) = Scalar x"
| "dec_field dst (Flag b) = Flag b"

fun bounded :: "fieldv \<Rightarrow> bool" where
  "bounded (Text s) = (length s < 2 ^ 64)"
| "bounded (Scalar x) = True"
| "bounded (Flag b) = True"

definition read_back :: "cli_options_t \<Rightarrow> cli_options_t \<Rightarrow> cli_options_t" where
  "read_back dst options =
     assign_fields (map2 dec_field (options_fields dst) (options_fields options)) dst"

subsection \<open>Callers\<close>

text \<open>A caller that appends the results of a list, one call of \<open>checkpoint_t::write\<close> after
  the other, and stops at the first exception.\<close>

fun write_each ::
  "(byte list \<Rightarrow> 64 word) \<Rightarrow> checkpoint_t \<Rightarrow> rd_result_t list \<Rightarrow> world \<Rightarrow> (exn + unit) \<times> world" where
  "write_each cs c [] w = (Inr (), w)"
| "write_each cs c (r # rs) w =
     (case write_result cs c r w of
        (Inl e, w') \<Rightarrow> (Inl e, w')
      | (Inr u, w') \<Rightarrow> write_each cs c rs w')"

text \<open>
  The public operations, as a caller may issue them in any order on one log. A caller
  that catches the exception of a call goes on with the log as the call left it. The
  result is \<open>None\<close> when a call does not return.
\<close>

datatype call =
  Clean nat
| Write rd_result_t
| SaveOptions cli_options_t
| LoadOptions cli_options_t
| CurrentProgress
| CompletedIndicies
| ExistingCheckpoint
| GetInode
| Reload
| MoveAssign checkpoint_t

fun step ::
  "(byte list \<Rightarrow> 64 word) \<Rightarrow> rd_result_t \<Rightarrow> call \<Rightarrow> checkpoint_t \<times> world
     \<Rightarrow> (checkpoint_t \<times> world) option" where
  "step cs fresh (Clean rank) (c, w) = map_option (\<lambda>(r, w'). (c, w')) (clean cs fresh rank c w)"
| "step cs fresh (Write result) (c, w) = Some (c, snd (write_result cs c result w))"
| "step cs fresh (SaveOptions options) (c, w) = Some (c, snd (save_options c options w))"
| "step cs fresh (LoadOptions options) (c, w) = Some (c, snd (snd (load_options c options w)))"
| "step cs fresh CurrentProgress (c, w) =
     map_option (\<lambda>(r, w'). (c, w')) (current_progress cs fresh c w)"
| "step cs fresh CompletedIndicies (c, w) =
     map_option (\<lambda>(r, w'). (c, w')) (completed_indicies cs fresh c w)"
| "step cs fresh ExistingCheckpoint (c, w) = Some (c, w)"
| "step cs fresh GetInode (c, w) = Some (c, w)"
| "step cs fresh Reload (c, w) = (case reload c w of (r, c', w') \<Rightarrow> Some (c', w'))"
| "step cs fresh (MoveAssign other) (c, w) = Some (fst (checkpoint_t_move_assign c other), w)"

fun run ::
  "(byte list \<Rightarrow> 64 word) \<Rightarrow> rd_result_t \<Rightarrow> call list \<Rightarrow> checkpoint_t \<times> world
     \<Rightarrow> (checkpoint_t \<times> world) option" where
  "run cs fresh [] st = Some st"
| "run cs fresh (x # xs) st =
     (case step cs fresh x st of None \<Rightarrow> None | Some st' \<Rightarrow> run cs fresh xs st')"

subsection \<open>Machines to run examples on\<close>

text \<open>\<open>boot_world\<close>: no files, no open descriptors, the descriptors 0 to 2 taken, no quota,
  every path openable. \<open>disk_with\<close>: the same with one file. \<open>opened\<close>: the same with
  descriptor 3 open on that file, at offset 0. \<open>byte_sum\<close> is a checksum for the examples:
  the sum of the bytes.\<close>

definition boot_world :: world where
  "boot_world =
     \<lparr>paths = Map.empty, inodes = (\<lambda>i. []), next_inode = 0,
      ofds = (\<lambda>k. \<lparr>ofd_inode = 0, ofd_offset = 0\<rparr>), next_ofd = 0,
      fds = Map.empty, next_fd = 3, quota = None, openable = (\<lambda>p. True)\<rparr>"

definition disk_with :: "string \<Rightarrow> byte list \<Rightarrow> world" where
  "disk_with path content =
     boot_world\<lparr>paths := [path \<mapsto> 0], inodes := (\<lambda>i. if i = 0 then content else []),
       next_inode := 1\<rparr>"

definition opened :: "string \<Rightarrow> byte list \<Rightarrow> world" where
  "opened path content =
     (disk_with path content)\<lparr>ofds := (\<lambda>k. \<lparr>ofd_inode = 0, ofd_offset = 0\<rparr>), next_ofd := 1,
        fds := [3 \<mapsto> 0], next_fd := 4\<rparr>"

definition byte_sum :: "byte list \<Rightarrow> 64 word" where
  "byte_sum bs = of_nat (sum_list (map unat bs))"

section \<open>Properties\<close>

subsection \<open>Evaluating the encoding of \<open>size_t\<close>\<close>

lemma eight_Suc: "(8::nat) = Suc (Suc (Suc (Suc (Suc (Suc (Suc (Suc 0)))))))"
  by simp

lemma le_bytes_8:
  "le_bytes 8 n =
     [of_nat (n mod 256), of_nat (n div 256 mod 256), of_nat (n div 256 div 256 mod 256),
      of_nat (n div 256 div 256 div 256 mod 256),
      of_nat (n div 256 div 256 div 256 div 256 mod 256),
      of_nat (n div 256 div 256 div 256 div 256 div 256 mod 256),
      of_nat (n div 256 div 256 div 256 div 256 div 256 div 256 mod 256),
      of_nat (n div 256 div 256 div 256 div 256 div 256 div 256 div 256 mod 256)]"
  unfolding eight_Suc by (simp only: le_bytes.simps)

lemmas fixture_simps = boot_world_def disk_with_def opened_def

lemmas run_simps =
  boot_world_def posix_open_def posix_access_def posix_close_def posix_lseek_def
  posix_read_def posix_write_def set_offset_def append_data_def bytes_of_u64_def
  u64_of_bytes_def le_bytes_8 c_str_def read_scalar_def write_scalar_def Let_def

subsection \<open>Lemmas: encodings, reads, writes, the scan\<close>

lemma length_le_bytes [simp]: "length (le_bytes k n) = k"
  by (induction k arbitrary: n) auto

lemma unat_byte_of_nat: "unat (of_nat m :: byte) = m mod 256"
  by (simp add: unat_of_nat)

lemma le_nat_le_bytes: "n < 256 ^ k \<Longrightarrow> le_nat (le_bytes k n) = n"
proof (induction k arbitrary: n)
  case 0
  then show ?case by simp
next
  case (Suc k)
  have "n div 256 < 256 ^ k"
    using Suc.prems by (simp add: less_mult_imp_div_less)
  then have "le_nat (le_bytes k (n div 256)) = n div 256"
    by (rule Suc.IH)
  then show ?case
    by (simp add: unat_byte_of_nat)
qed

lemma length_bytes_of_u64 [simp]: "length (bytes_of_u64 x) = 8"
  by (simp add: bytes_of_u64_def)

lemma u64_of_bytes_of_u64 [simp]: "u64_of_bytes (bytes_of_u64 x) = x"
proof -
  have "unat x < 2 ^ 64"
    using unsigned_less [of x] by simp
  moreover have "(2::nat) ^ 64 = 256 ^ 8" by simp
  ultimately have "unat x < 256 ^ 8"
    by (simp only:)
  then show ?thesis
    by (simp add: u64_of_bytes_def bytes_of_u64_def le_nat_le_bytes)
qed

lemma skip_skip [simp]: "skip k n (skip k m w) = skip k (m + n) w"
  by (simp add: skip_def set_offset_def add.assoc)

lemma skip_0 [simp]: "skip k 0 w = w"
  by (simp add: skip_def set_offset_def)

lemma rd_skip: "rd fd k w (bs @ rest) \<Longrightarrow> rd fd k (skip k (length bs) w) rest"
  by (auto simp add: rd_def skip_def set_offset_def append_eq_conv_conj add.commute simp flip: drop_drop)

lemma posix_read_rd:
  "rd fd k w bs \<Longrightarrow> posix_read fd n w = (int (length (take n bs)), take n bs, skip k (length (take n bs)) w)"
  by (simp add: rd_def posix_read_def skip_def Let_def)

lemma read_scalar_rd:
  "rd fd k w (bs @ rest) \<Longrightarrow> length bs = n \<Longrightarrow> read_scalar fd n w = (Inr bs, skip k n w)"
  by (simp add: read_scalar_def posix_read_rd)

lemma read_scalar_short:
  "rd fd k w bs \<Longrightarrow> length bs < n \<Longrightarrow>
   read_scalar fd n w = (Inl checkpoint_read_success_failure, skip k (length bs) w)"
  by (simp add: read_scalar_def posix_read_rd)

lemma read_string_rd:
  assumes "rd fd k w (enc_string s @ rest)" and "length s < 2 ^ 64"
  shows "read_string fd dst w
           = (Inr (of_nat (8 + length s)), (if s = [] then dst else c_str s), skip k (8 + length s) w)"
proof -
  have 1: "read_scalar fd 8 w = (Inr (bytes_of_u64 (of_nat (length s))), skip k 8 w)"
    using assms(1) by (intro read_scalar_rd [where rest = "s @ rest"]) (simp_all add: enc_string_def)
  have 2: "rd fd k (skip k 8 w) (s @ rest)"
    using rd_skip [of fd k w "bytes_of_u64 (of_nat (length s))" "s @ rest"] assms(1)
    by (simp add: enc_string_def)
  have 3: "unat (of_nat (length s) :: 64 word) = length s"
    using assms(2) by (simp add: unat_of_nat)
  have 4: "(of_nat (length s) :: 64 word) = 0 \<longleftrightarrow> s = []"
    using 3 by (cases s) (auto simp: unat_eq_0)
  show ?thesis
    by (simp add: read_string_def 1 posix_read_rd [OF 2] 3 4 Let_def)
qed

lemma length_enc_field [simp]: "length (enc_field v) = field_size v"
  by (cases v) (simp_all add: enc_string_def)

lemma read_field_rd:
  assumes "rd fd k w (enc_field v @ rest)" and "compat dst v"
  shows "read_field fd dst w = (Inr (of_nat (field_size v)), dec_field dst v, skip k (field_size v) w)"
proof (cases v)
  case (Text s)
  then obtain d where d: "dst = Text d" using assms(2) by (cases dst) auto
  show ?thesis
    using assms Text d by (simp add: read_string_rd)
next
  case (Scalar x)
  then obtain d where d: "dst = Scalar d" using assms(2) by (cases dst) auto
  show ?thesis
    using assms Scalar d by (simp add: read_scalar_rd [where rest = rest])
next
  case (Flag b)
  then obtain d where d: "dst = Flag d" using assms(2) by (cases dst) auto
  have "rd fd k w ([if b then 1 else 0] @ rest)"
    using assms(1) Flag by simp
  then have "read_scalar fd 1 w = (Inr [if b then 1 else 0], skip k 1 w)"
    by (rule read_scalar_rd) simp
  then show ?thesis
    using Flag d by simp
qed

lemma read_all_rd:
  "list_all2 compat dsts vs \<Longrightarrow> rd fd k w (enc_fields vs @ rest) \<Longrightarrow>
   read_all fd dsts w
     = (Inr (of_nat (sum_list (map field_size vs))), map2 dec_field dsts vs,
        skip k (sum_list (map field_size vs)) w)"
proof (induction dsts vs arbitrary: w rule: list_all2_induct)
  case Nil
  then show ?case by simp
next
  case (Cons d ds v vs)
  have a: "rd fd k w (enc_field v @ (enc_fields vs @ rest))"
    using Cons.prems by (simp add: enc_fields_def)
  have b: "rd fd k (skip k (field_size v) w) (enc_fields vs @ rest)"
    using rd_skip [OF a] by simp
  show ?case
    by (simp add: read_field_rd [OF a Cons.hyps(1)] Cons.IH [OF b])
qed

lemma compat_options: "sized options \<Longrightarrow> list_all2 compat (options_fields dst) (options_fields options)"
  by (simp add: sized_def options_fields_def)

lemma read_cli_options_rd:
  assumes "rd fd k w (enc_fields (options_fields options) @ rest)" and "sized options"
  shows "read_cli_options fd dst w
     = (Inr (options_size options), read_back dst options,
        skip k (length (enc_fields (options_fields options))) w)"
proof -
  have "length (enc_fields (options_fields options)) = sum_list (map field_size (options_fields options))"
    by (simp add: enc_fields_def length_concat comp_def)
  then show ?thesis
    by (simp add: read_cli_options_def read_all_rd [OF compat_options [OF assms(2)] assms(1)]
        read_back_def options_size_def)
qed

lemma read_with_success_rd:
  assumes "rd fd k w (header_bytes options @ rest)" and "sized options"
  shows "read_with_success fd dst w
     = (Inr (8 + options_size options), read_back dst options,
        skip k (length (header_bytes options)) w)"
proof -
  have a: "rd fd k w (bytes_of_u64 (options_size options) @ (enc_fields (options_fields options) @ rest))"
    using assms(1) by (simp add: header_bytes_def)
  have 1: "read_scalar fd 8 w = (Inr (bytes_of_u64 (options_size options)), skip k 8 w)"
    using a by (rule read_scalar_rd) simp
  have 2: "rd fd k (skip k 8 w) (enc_fields (options_fields options) @ rest)"
    using rd_skip [OF a] by simp
  show ?thesis
    by (simp add: read_with_success_def 1 read_cli_options_rd [OF 2 assms(2)] header_bytes_def)
qed

lemma c_str_id: "0 \<notin> set s \<Longrightarrow> c_str s = s"
  by (auto simp add: c_str_def takeWhile_eq_all_conv)

lemma c_strings_sized: "c_strings options \<Longrightarrow> sized options"
  by (simp add: c_strings_def sized_def options_fields_def)

lemma read_back_fields:
  "c_strings options \<Longrightarrow> options_fields (read_back default_options options) = options_fields options"
  by (simp add: read_back_def options_fields_def assign_fields_def default_options_def c_strings_def c_str_id)

lemma header_bytes_read_back:
  "c_strings options \<Longrightarrow> header_bytes (read_back default_options options) = header_bytes options"
  by (simp add: header_bytes_def options_size_def read_back_fields)

lemma app_app [simp]: "app k b2 (app k b1 w) = app k (b1 @ b2) w"
  by (cases "quota w") (simp_all add: app_def append_data_def Let_def add.assoc)

lemma app_Nil [simp]: "app k [] w = w"
  by (simp add: app_def)

lemma wr_app [simp]: "wr fd k' (app k buf w) = wr fd k' w"
  by (simp add: wr_def app_def append_data_def Let_def)

lemma posix_write_wr: "wr fd k w \<Longrightarrow> posix_write fd buf w = (int (length buf), app k buf w)"
  by (simp add: wr_def posix_write_def app_def Let_def)

lemma write_scalar_wr: "wr fd k w \<Longrightarrow> write_scalar fd buf w = (Inr (of_nat (length buf)), app k buf w)"
  by (simp add: write_scalar_def posix_write_wr)

lemma write_string_wr:
  assumes "wr fd k w" and "length s < 2 ^ 64"
  shows "write_string fd s w = (Inr (of_nat (8 + length s)), app k (enc_string s) w)"
proof -
  have "unat (of_nat (length s) :: 64 word) = length s"
    using assms(2) by (simp add: unat_of_nat)
  then show ?thesis
    using assms(1) by (simp add: write_string_def posix_write_wr enc_string_def Let_def)
qed

lemma write_field_wr:
  "wr fd k w \<Longrightarrow> bounded f \<Longrightarrow>
   write_field fd f w = (Inr (of_nat (field_size f)), app k (enc_field f) w)"
  by (cases f) (simp_all add: write_string_wr write_scalar_wr)

lemma write_all_wr:
  "wr fd k w \<Longrightarrow> list_all bounded fs \<Longrightarrow>
   write_all fd fs w = (Inr (of_nat (sum_list (map field_size fs))), app k (enc_fields fs) w)"
proof (induction fs arbitrary: w)
  case Nil
  then show ?case by (simp add: enc_fields_def)
next
  case (Cons f fs)
  then have "wr fd k (app k (enc_field f) w)" by simp
  then show ?case
    using Cons by (simp add: write_field_wr enc_fields_def)
qed

lemma sized_bounded: "sized options \<Longrightarrow> list_all bounded (options_fields options)"
  by (simp add: sized_def options_fields_def)

lemma write_with_success_wr:
  assumes "wr fd k w" and "sized options"
  shows "write_with_success fd options w
           = (Inr (8 + options_size options), app k (header_bytes options) w)"
  using assms
  by (simp add: write_with_success_def write_scalar_wr write_cli_options_def
      write_all_wr sized_bounded options_size_def header_bytes_def)

lemma length_encode_result [simp]: "length (encode_result r) = 16"
  by (simp add: encode_result_def)

lemma write_with_checksum_wr:
  assumes "wr fd k w"
  shows "write_with_checksum cs fd r w = (Inr 32, app k (frame cs r) w)"
  using assms by (simp add: write_with_checksum_def write_scalar_wr frame_def Let_def)

lemma write_results_wr:
  "wr fd k w \<Longrightarrow> write_results cs fd rs w = (Inr (), app k (frames cs rs) w)"
proof (induction rs arbitrary: w)
  case Nil
  then show ?case by (simp add: frames_def)
next
  case (Cons r rs)
  then have "wr fd k (app k (frame cs r) w)" by simp
  then show ?case
    using Cons by (simp add: write_with_checksum_wr frames_def)
qed

lemma decode_encode_result [simp]: "decode_result (encode_result r) = Some r"
  by (simp add: decode_result_def encode_result_def)

lemma length_frame [simp]: "length (frame cs r) = 32"
  by (simp add: frame_def)

lemma read_with_checksum_frame:
  assumes "rd fd k w (frame cs r @ rest)"
  shows "read_with_checksum cs fd fresh w = (Inr 32, r, skip k 32 w)"
proof -
  have a: "rd fd k w (bytes_of_u64 16 @ (bytes_of_u64 (cs (encode_result r)) @ encode_result r @ rest))"
    using assms by (simp add: frame_def)
  have 1: "read_scalar fd 8 w = (Inr (bytes_of_u64 16), skip k 8 w)"
    using a by (rule read_scalar_rd) simp
  have b: "rd fd k (skip k 8 w) (bytes_of_u64 (cs (encode_result r)) @ (encode_result r @ rest))"
    using rd_skip [OF a] by simp
  have 2: "read_scalar fd 8 (skip k 8 w) = (Inr (bytes_of_u64 (cs (encode_result r))), skip k 16 w)"
    using read_scalar_rd [OF b, of 8] by simp
  have c: "rd fd k (skip k 16 w) (encode_result r @ rest)"
    using rd_skip [OF b] by simp
  have 3: "read_scalar fd 16 (skip k 16 w) = (Inr (encode_result r), skip k 32 w)"
    using read_scalar_rd [OF c, of 16] by simp
  show ?thesis
    by (simp add: read_with_checksum_def 1 2 3)
qed

lemma set_offset_set_offset [simp]: "set_offset k a (set_offset k b w) = set_offset k a w"
  by (simp add: set_offset_def)

lemma skip_set_offset [simp]: "skip k n (set_offset k b w) = set_offset k (b + n) w"
  by (simp add: skip_def set_offset_def)

lemma set_offset_skip [simp]: "set_offset k a (skip k n w) = set_offset k a w"
  by (simp add: skip_def set_offset_def)

lemma rd_split: "rd fd k w (a @ b) \<Longrightarrow> length a = n \<Longrightarrow> rd fd k (skip k n w) b"
  using rd_skip by blast

lemma read_with_checksum_corrupt:
  assumes "rd fd k w tail" and "corrupt_record cs tail"
  shows "\<exists>n. read_with_checksum cs fd fresh w = (Inl checkpoint_read_success_failure, fresh, skip k n w)"
proof (cases "length tail < 8")
  case True
  then show ?thesis
    using read_scalar_short [OF assms(1), of 8]
    by (auto simp: read_with_checksum_def)
next
  case False
  define a where "a = take 8 tail"
  define t1 where "t1 = drop 8 tail"
  have la: "length a = 8" using False by (simp add: a_def)
  have tail: "tail = a @ t1" by (simp add: a_def t1_def)
  have 1: "read_scalar fd 8 w = (Inr a, skip k 8 w)"
    using assms(1) la unfolding tail by (rule read_scalar_rd)
  have r1: "rd fd k (skip k 8 w) t1"
    using assms(1) la unfolding tail by (rule rd_split)
  show ?thesis
  proof (cases "length t1 < 8")
    case True
    then show ?thesis
      using read_scalar_short [OF r1, of 8]
      by (auto simp: read_with_checksum_def 1)
  next
    case False
    define b where "b = take 8 t1"
    define t2 where "t2 = drop 8 t1"
    have lb: "length b = 8" using False by (simp add: b_def)
    have t1: "t1 = b @ t2" by (simp add: b_def t2_def)
    have 2: "read_scalar fd 8 (skip k 8 w) = (Inr b, skip k 16 w)"
      using read_scalar_rd [OF r1 [unfolded t1] lb] by simp
    have r2: "rd fd k (skip k 16 w) t2"
      using rd_split [OF r1 [unfolded t1] lb] by simp
    have t2: "t2 = drop 16 tail" by (simp add: t2_def t1_def)
    have l16: "\<not> length tail < 16" using False by (simp add: t1_def)
    define len where "len = unat (u64_of_bytes a)"
    have c: "length t2 < len \<or> cs (take len t2) \<noteq> u64_of_bytes b"
      using assms(2) l16
      by (simp add: corrupt_record_def Let_def len_def a_def b_def t1_def t2)
    show ?thesis
    proof (cases "length t2 < len")
      case True
      then show ?thesis
        using read_scalar_short [OF r2, of len]
        by (auto simp: read_with_checksum_def 1 2 len_def)
    next
      case False
      then have lt: "length (take len t2) = len" by simp
      have "rd fd k (skip k 16 w) (take len t2 @ drop len t2)" using r2 by simp
      then have 3: "read_scalar fd len (skip k 16 w) = (Inr (take len t2), skip k (16 + len) w)"
        using read_scalar_rd [of fd k "skip k 16 w" "take len t2" "drop len t2" len] lt by simp
      have "cs (take len t2) \<noteq> u64_of_bytes b" using c False by simp
      then show ?thesis
        by (auto simp: read_with_checksum_def 1 2 3 len_def [symmetric])
    qed
  qed
qed

lemma frame_not_Nil [simp]: "frame cs r \<noteq> []"
  using length_frame [of cs r] by (metis list.size(3) zero_neq_numeral)

lemma bytes_of_u64_not_Nil [simp]: "bytes_of_u64 x \<noteq> []"
  using length_bytes_of_u64 [of x] by (metis list.size(3) zero_neq_numeral)

lemma corrupt_wrong_checksum:
  "cs' (encode_result r) \<noteq> cs (encode_result r) \<Longrightarrow> corrupt_record cs (frame cs' r @ rest)"
  by (simp add: corrupt_record_def frame_def Let_def)

lemma corrupt_partial_frame:
  assumes "0 < n" and "n < 32"
  shows "corrupt_record cs (take n (frame cs r))"
proof (cases "n < 16")
  case True
  then show ?thesis using assms by (simp add: corrupt_record_def)
next
  case False
  have "take 8 (take n (frame cs r)) = bytes_of_u64 16"
    using False by (simp add: frame_def take_take min_def)
  then show ?thesis
    using False assms by (auto simp add: corrupt_record_def Let_def)
qed

lemma pending_nonempty:
  "rd fd k w bs \<Longrightarrow>
   (int (ofd_offset (ofds w k)) < int (length (inodes w (ofd_inode (ofds w k))))) = (bs \<noteq> [])"
  by (auto simp: rd_def)

lemma lseek_cur_rd:
  "rd fd k w bs \<Longrightarrow> posix_lseek fd 0 SEEK_CUR w = (int (ofd_offset (ofds w k)), w)"
  by (simp add: rd_def posix_lseek_def set_offset_def)

lemma skip_offset [simp]: "ofd_offset (ofds (skip k n w) k) = ofd_offset (ofds w k) + n"
  by (simp add: skip_def set_offset_def)

lemma skip_inode [simp]: "ofd_inode (ofds (skip k n w) k) = ofd_inode (ofds w k)"
  by (simp add: skip_def set_offset_def)

lemma skip_inodes [simp]: "inodes (skip k n w) = inodes w"
  by (simp add: skip_def set_offset_def)

lemma scan_loop_frames:
  assumes "rd fd k w (frames cs rs @ tail)"
    and "tail = [] \<or> corrupt_record cs tail"
    and "cur = int (ofd_offset (ofds w k))"
    and "end = int (length (inodes w (ofd_inode (ofds w k))))"
  shows "\<exists>n. scan_loop cs fd end fresh (cur, acc, w) = Some (Inr (acc @ rs), skip k n w)"
  using assms
proof (induction rs arbitrary: w cur acc)
  case Nil
  then have r: "rd fd k w tail" by (simp add: frames_def)
  show ?case
  proof (cases "tail = []")
    case True
    then have "\<not> cur < end"
      using pending_nonempty [OF r] Nil.prems(3,4) by simp
    then have "scan_loop cs fd end fresh (cur, acc, w) = Some (Inr (acc @ []), skip k 0 w)"
      by (subst scan_loop.simps) simp
    then show ?thesis by blast
  next
    case False
    then have lt: "cur < end"
      using pending_nonempty [OF r] Nil.prems(3,4) by simp
    from False Nil.prems(2) have "corrupt_record cs tail" by simp
    from read_with_checksum_corrupt [OF r this, of fresh]
    obtain n where "read_with_checksum cs fd fresh w
        = (Inl checkpoint_read_success_failure, fresh, skip k n w)" by blast
    then have "scan_loop cs fd end fresh (cur, acc, w) = Some (Inr (acc @ []), skip k n w)"
      using lt by (subst scan_loop.simps) simp
    then show ?thesis by blast
  qed
next
  case (Cons r rs)
  have a: "rd fd k w (frame cs r @ (frames cs rs @ tail))"
    using Cons.prems(1) by (simp add: frames_def)
  have lt: "cur < end"
    using pending_nonempty [OF a] Cons.prems(3,4) by simp
  have rdc: "read_with_checksum cs fd fresh w = (Inr 32, r, skip k 32 w)"
    using a by (rule read_with_checksum_frame)
  have b: "rd fd k (skip k 32 w) (frames cs rs @ tail)"
    using rd_split [OF a] by simp
  have ls: "posix_lseek fd 0 SEEK_CUR (skip k 32 w) = (int (ofd_offset (ofds w k) + 32), skip k 32 w)"
    using lseek_cur_rd [OF b] by simp
  from Cons.IH [OF b Cons.prems(2), of "int (ofd_offset (ofds w k) + 32)" "acc @ [r]"]
  obtain n where n: "scan_loop cs fd end fresh (int (ofd_offset (ofds w k) + 32), acc @ [r], skip k 32 w)
      = Some (Inr ((acc @ [r]) @ rs), skip k n (skip k 32 w))"
    using Cons.prems(4) by auto
  have "scan_loop cs fd end fresh (cur, acc, w) = Some (Inr (acc @ r # rs), skip k (32 + n) w)"
    using lt n by (subst scan_loop.simps) (simp add: rdc ls expected_read_size_def)
  then show ?case by blast
qed

lemma rd_set_offset:
  "fds w fd = Some k \<Longrightarrow> inodes w (ofd_inode (ofds w k)) = a @ b \<Longrightarrow>
   rd fd k (set_offset k (length a) w) b"
  by (simp add: rd_def set_offset_def)

lemma lseek_set_open:
  "fds w fd = Some k \<Longrightarrow> posix_lseek fd (int n) SEEK_SET w = (int n, set_offset k n w)"
  by (simp add: posix_lseek_def)

lemma lseek_cur_open:
  "fds w fd = Some k \<Longrightarrow>
   posix_lseek fd 0 SEEK_CUR w = (int (ofd_offset (ofds w k)), set_offset k (ofd_offset (ofds w k)) w)"
  by (simp add: posix_lseek_def)

lemma lseek_end_open:
  "fds w fd = Some k \<Longrightarrow>
   posix_lseek fd 0 SEEK_END w
     = (int (length (inodes w (ofd_inode (ofds w k)))),
        set_offset k (length (inodes w (ofd_inode (ofds w k)))) w)"
  by (simp add: posix_lseek_def)

lemma set_offset_sel [simp]:
  "fds (set_offset k n w) = fds w"
  "inodes (set_offset k n w) = inodes w"
  "paths (set_offset k n w) = paths w"
  "quota (set_offset k n w) = quota w"
  "next_fd (set_offset k n w) = next_fd w"
  "ofd_inode (ofds (set_offset k n w) j) = ofd_inode (ofds w j)"
  "ofd_offset (ofds (set_offset k n w) k) = n"
  by (simp_all add: set_offset_def)

lemma current_progress_frames:
  assumes f: "fds w (file_descriptor c) = Some k"
    and i: "inodes w (ofd_inode (ofds w k)) = header_bytes cfg @ frames cs rs @ tail"
    and s: "sized cfg"
    and t: "tail = [] \<or> corrupt_record cs tail"
  shows "\<exists>off. current_progress cs fresh c w = Some (Inr rs, after_scan k off w)"
proof -
  define cfd where "cfd = next_fd w"
  define w1 where "w1 = w\<lparr>fds := (fds w)(cfd \<mapsto> k), next_fd := cfd + 1\<rparr>"
  define h where "h = length (header_bytes cfg)"
  have d: "posix_dupfd (file_descriptor c) w = (cfd, w1)"
    using f by (simp add: posix_dupfd_def cfd_def w1_def)
  have f1: "fds w1 cfd = Some k" by (simp add: w1_def)
  have i1: "inodes w1 (ofd_inode (ofds w1 k)) = header_bytes cfg @ frames cs rs @ tail"
    using i by (simp add: w1_def)
  have l0: "posix_lseek cfd 0 SEEK_SET w1 = (0, set_offset k 0 w1)"
    using lseek_set_open [OF f1, of 0] by simp
  have r0: "rd cfd k (set_offset k 0 w1) (header_bytes cfg @ (frames cs rs @ tail))"
    using rd_set_offset [of w1 cfd k "[]"] f1 i1 by simp
  have rh: "read_with_success cfd default_options (set_offset k 0 w1)
      = (Inr (8 + options_size cfg), read_back default_options cfg, set_offset k h w1)"
    using read_with_success_rd [OF r0 s] by (simp add: h_def)
  have r1: "rd cfd k (set_offset k h w1) (frames cs rs @ tail)"
    using rd_set_offset [of w1 cfd k "header_bytes cfg"] f1 i1 by (simp add: h_def)
  have f2: "fds (set_offset k h w1) cfd = Some k" using f1 by simp
  have l1: "posix_lseek cfd 0 SEEK_CUR (set_offset k h w1) = (int h, set_offset k h w1)"
    using lseek_cur_open [OF f2] by simp
  have l2: "posix_lseek cfd 0 SEEK_END (set_offset k h w1)
      = (int (length (inodes w1 (ofd_inode (ofds w1 k)))),
         set_offset k (length (inodes w1 (ofd_inode (ofds w1 k)))) w1)"
    using lseek_end_open [OF f2] by simp
  have l3: "posix_lseek cfd (int h) SEEK_SET (set_offset k (length (inodes w1 (ofd_inode (ofds w1 k)))) w1)
      = (int h, set_offset k h w1)"
    using lseek_set_open [of "set_offset k (length (inodes w1 (ofd_inode (ofds w1 k)))) w1" cfd k h] f1
    by simp
  from scan_loop_frames [OF r1 t, of "int h" "int (length (inodes w1 (ofd_inode (ofds w1 k))))" fresh "[]"]
  obtain n where n: "scan_loop cs cfd (int (length (inodes w1 (ofd_inode (ofds w1 k))))) fresh
      (int h, [], set_offset k h w1) = Some (Inr rs, set_offset k (h + n) w1)"
    by auto
  have cl: "posix_close cfd (set_offset k (h + n) w1) = (0, after_scan k (h + n) w)"
    using f1 by (simp add: posix_close_def after_scan_def w1_def set_offset_def cfd_def)
  have "current_progress cs fresh c w = Some (Inr rs, after_scan k (h + n) w)"
    by (simp add: current_progress_def d l0 rh l1 l2 l3 n cl)
  then show ?thesis by blast
qed

lemma app_sel [simp]:
  "fds (app k b w) = fds w"
  "paths (app k b w) = paths w"
  "next_fd (app k b w) = next_fd w"
  "next_ofd (app k b w) = next_ofd w"
  "next_inode (app k b w) = next_inode w"
  "openable (app k b w) = openable w"
  "ofd_inode (ofds (app k b w) j) = ofd_inode (ofds w j)"
  "inodes (app k b w) i = (if i = ofd_inode (ofds w k) then inodes w i @ b else inodes w i)"
  by (simp_all add: app_def append_data_def Let_def)

lemma app_quota [simp]: "quota w = None \<Longrightarrow> quota (app k b w) = None"
  by (simp add: app_def append_data_def Let_def)

lemma skip_sel [simp]:
  "fds (skip k n w) = fds w"
  "paths (skip k n w) = paths w"
  "quota (skip k n w) = quota w"
  "next_fd (skip k n w) = next_fd w"
  "next_ofd (skip k n w) = next_ofd w"
  "next_inode (skip k n w) = next_inode w"
  "openable (skip k n w) = openable w"
  "ofd_inode (ofds (skip k n w) j) = ofd_inode (ofds w j)"
  by (simp_all add: skip_def set_offset_def)

lemma after_scan_sel [simp]:
  "fds (after_scan k n w) = (fds w)(next_fd w := None)"
  "paths (after_scan k n w) = paths w"
  "inodes (after_scan k n w) = inodes w"
  "quota (after_scan k n w) = quota w"
  "next_fd (after_scan k n w) = next_fd w + 1"
  "next_ofd (after_scan k n w) = next_ofd w"
  "next_inode (after_scan k n w) = next_inode w"
  "openable (after_scan k n w) = openable w"
  "ofd_inode (ofds (after_scan k n w) j) = ofd_inode (ofds w j)"
  by (simp_all add: after_scan_def set_offset_def)

lemma set_offset_sel2 [simp]:
  "next_ofd (set_offset k n w) = next_ofd w"
  "next_inode (set_offset k n w) = next_inode w"
  "openable (set_offset k n w) = openable w"
  by (simp_all add: set_offset_def)

lemma sized_read_back: "c_strings cfg \<Longrightarrow> sized (read_back default_options cfg)"
  by (simp add: sized_def read_back_fields) (simp add: c_strings_def options_fields_def)

lemma grows_refl [simp]: "grows w w"
  by (simp add: grows_def)









lemma step_existing_results:
  "step cs fresh x (c, w) = Some (c', w') \<Longrightarrow> existing_results c' = existing_results c"
  by (cases x) (auto simp: reload_def checkpoint_t_move_assign_def split: prod.splits if_splits)

lemma run_existing_results:
  "run cs fresh xs (c, w) = Some (c', w') \<Longrightarrow> existing_results c' = existing_results c"
proof (induction xs arbitrary: c w)
  case Nil
  then show ?case by simp
next
  case (Cons x xs)
  then obtain c1 w1 where 1: "step cs fresh x (c, w) = Some (c1, w1)"
    and 2: "run cs fresh xs (c1, w1) = Some (c', w')"
    by (auto split: option.splits)
  show ?case
    using step_existing_results [OF 1] Cons.IH [OF 2] by simp
qed

lemma ctor_existing_results:
  "fst (checkpoint_t_ctor prfx w0) = Inr c \<Longrightarrow>
   existing_results c = (paths w0 (prfx @ ''.ckp'') \<noteq> None)"
  by (auto simp: checkpoint_t_ctor_def posix_access_def Let_def
      split: prod.splits if_splits option.splits)

lemma write_each_wr:
  "wr (file_descriptor c) k w \<Longrightarrow> write_each cs c rs w = (Inr (), app k (frames cs rs) w)"
proof (induction rs arbitrary: w)
  case Nil
  then show ?case by (simp add: frames_def)
next
  case (Cons r rs)
  then have "wr (file_descriptor c) k (app k (frame cs r) w)" by simp
  then show ?case
    using Cons by (simp add: write_result_def write_with_checksum_wr frames_def)
qed

lemma frames_append: "frames cs (xs @ ys) = frames cs xs @ frames cs ys"
  by (simp add: frames_def)

lemma completed_of_progress:
  "current_progress cs fresh c w = Some (Inr rs, w') \<Longrightarrow>
   completed_indicies cs fresh c w = Some (Inr (map root_id rs), w')"
  by (simp add: completed_indicies_def)

lemma sized_default: "sized default_options"
  by (simp add: sized_def options_fields_def default_options_def)

lemma c_strings_default: "c_strings default_options"
  by (simp add: c_strings_def options_fields_def default_options_def)

text \<open>A scan of an intact file leaves the offset of the description at the end of the
  file, and there \<open>clean\<close> cannot read the header.\<close>

lemma scan_loop_frames_end:
  assumes "rd fd k w (frames cs rs)"
    and "cur = int (ofd_offset (ofds w k))"
    and "end = int (length (inodes w (ofd_inode (ofds w k))))"
  shows "scan_loop cs fd end fresh (cur, acc, w)
           = Some (Inr (acc @ rs), skip k (length (frames cs rs)) w)"
  using assms
proof (induction rs arbitrary: w cur acc)
  case Nil
  then have r: "rd fd k w []" by (simp add: frames_def)
  have "\<not> cur < end"
    using pending_nonempty [OF r] Nil.prems(2,3) by simp
  then show ?case
    by (subst scan_loop.simps) (simp add: frames_def)
next
  case (Cons r rs)
  have a: "rd fd k w (frame cs r @ frames cs rs)"
    using Cons.prems(1) by (simp add: frames_def)
  have lt: "cur < end"
    using pending_nonempty [OF a] Cons.prems(2,3) by simp
  have rdc: "read_with_checksum cs fd fresh w = (Inr 32, r, skip k 32 w)"
    using a by (rule read_with_checksum_frame)
  have b: "rd fd k (skip k 32 w) (frames cs rs)"
    using rd_split [OF a] by simp
  have ls: "posix_lseek fd 0 SEEK_CUR (skip k 32 w)
      = (int (ofd_offset (ofds w k) + 32), skip k 32 w)"
    using lseek_cur_rd [OF b] by simp
  have n: "scan_loop cs fd end fresh (int (ofd_offset (ofds w k) + 32), acc @ [r], skip k 32 w)
      = Some (Inr ((acc @ [r]) @ rs), skip k (length (frames cs rs)) (skip k 32 w))"
    using Cons.IH [OF b, of "int (ofd_offset (ofds w k) + 32)" "acc @ [r]"] Cons.prems(3)
    by simp
  have len: "length (frames cs (r # rs)) = 32 + length (frames cs rs)"
    by (simp add: frames_def)
  show ?case
    using lt n by (subst scan_loop.simps) (simp add: rdc ls expected_read_size_def len)
qed

lemma current_progress_end:
  assumes f: "fds w (file_descriptor c) = Some k"
    and i: "inodes w (ofd_inode (ofds w k)) = header_bytes cfg @ frames cs rs"
    and s: "sized cfg"
  shows "current_progress cs fresh c w
           = Some (Inr rs, after_scan k (length (header_bytes cfg @ frames cs rs)) w)"
proof -
  define cfd where "cfd = next_fd w"
  define w1 where "w1 = w\<lparr>fds := (fds w)(cfd \<mapsto> k), next_fd := cfd + 1\<rparr>"
  define h where "h = length (header_bytes cfg)"
  define e where "e = length (inodes w1 (ofd_inode (ofds w1 k)))"
  have d: "posix_dupfd (file_descriptor c) w = (cfd, w1)"
    using f by (simp add: posix_dupfd_def cfd_def w1_def)
  have f1: "fds w1 cfd = Some k" by (simp add: w1_def)
  have i1: "inodes w1 (ofd_inode (ofds w1 k)) = header_bytes cfg @ frames cs rs"
    using i by (simp add: w1_def)
  have l0: "posix_lseek cfd 0 SEEK_SET w1 = (0, set_offset k 0 w1)"
    using lseek_set_open [OF f1, of 0] by simp
  have r0: "rd cfd k (set_offset k 0 w1) (header_bytes cfg @ frames cs rs)"
    using rd_set_offset [of w1 cfd k "[]"] f1 i1 by simp
  have rh: "read_with_success cfd default_options (set_offset k 0 w1)
      = (Inr (8 + options_size cfg), read_back default_options cfg, set_offset k h w1)"
    using read_with_success_rd [OF r0 s] by (simp add: h_def)
  have r1: "rd cfd k (set_offset k h w1) (frames cs rs)"
    using rd_set_offset [of w1 cfd k "header_bytes cfg"] f1 i1 by (simp add: h_def)
  have f2: "fds (set_offset k h w1) cfd = Some k" using f1 by simp
  have l1: "posix_lseek cfd 0 SEEK_CUR (set_offset k h w1) = (int h, set_offset k h w1)"
    using lseek_cur_open [OF f2] by simp
  have l2: "posix_lseek cfd 0 SEEK_END (set_offset k h w1) = (int e, set_offset k e w1)"
    using lseek_end_open [OF f2] by (simp add: e_def)
  have l3: "posix_lseek cfd (int h) SEEK_SET (set_offset k e w1) = (int h, set_offset k h w1)"
    using lseek_set_open [of "set_offset k e w1" cfd k h] f1 by simp
  have n: "scan_loop cs cfd (int e) fresh (int h, [], set_offset k h w1)
      = Some (Inr rs, set_offset k (h + length (frames cs rs)) w1)"
    using scan_loop_frames_end [OF r1, of "int h" "int e" fresh "[]"] by (simp add: e_def)
  have cl: "posix_close cfd (set_offset k (h + length (frames cs rs)) w1)
      = (0, after_scan k (h + length (frames cs rs)) w)"
    using f1 by (simp add: posix_close_def after_scan_def w1_def set_offset_def cfd_def)
  show ?thesis
    by (simp add: current_progress_def d l0 rh l1 l2 l3 n cl) (simp add: h_def)
qed

lemma after_scan_offset [simp]: "ofd_offset (ofds (after_scan k n w) k) = n"
  by (simp add: after_scan_def set_offset_def)

lemma ctor_disk:
  "checkpoint_t_ctor ''run'' (disk_with ''run.ckp'' content)
     = (Inr \<lparr>checkpoint_filename = ''run.ckp'', existing_results = True, file_descriptor = 3\<rparr>,
        opened ''run.ckp'' content)"
proof -
  have "(\<lambda>k. \<lparr>ofd_inode = 0, ofd_offset = 0\<rparr>)(0 := \<lparr>ofd_inode = 0, ofd_offset = 0\<rparr>)
      = (\<lambda>k::nat. \<lparr>ofd_inode = 0::nat, ofd_offset = 0::nat\<rparr>)"
    by (simp add: fun_eq_iff)
  then show ?thesis
    by (simp add: checkpoint_t_ctor_def posix_access_def posix_open_def fixture_simps Let_def)
qed

lemma clean_at_end_of_file:
  assumes c: "c = \<lparr>checkpoint_filename = ''run.ckp'', existing_results = True, file_descriptor = 3\<rparr>"
    and f: "fds w 3 = Some 0"
    and e: "length (inodes w (ofd_inode (ofds w 0))) \<le> ofd_offset (ofds w 0)"
    and i: "ofd_inode (ofds w 0) = 0" "next_inode w = 1" "0 < next_ofd w"
    and p: "paths w = [''run.ckp'' \<mapsto> 0]" "openable w = (\<lambda>p. True)"
    and n: "3 < next_fd w"
  shows "\<exists>w'. clean cs fresh 0 c w = Some (Inl checkpoint_read_success_failure, w')
           \<and> paths w' ''run.ckp.bak'' = Some 1 \<and> inodes w' 1 = []
           \<and> paths w' ''run.ckp'' = Some 0 \<and> inodes w' 0 = inodes w 0
           \<and> clean cs fresh 0 c w'
               = Some (Inl (runtime_error
                   ''Failed to open the new checkpoint when cleaning the checkpoint''), w')"
proof -
  define wb where "wb = w\<lparr>paths := (paths w)(''run.ckp.bak'' \<mapsto> 1),
                  inodes := (inodes w)(1 := []),
                  next_inode := 1 + 1,
                  ofds := (ofds w)(next_ofd w := \<lparr>ofd_inode = 1, ofd_offset = 0\<rparr>),
                  next_ofd := next_ofd w + 1,
                  fds := (fds w)(next_fd w \<mapsto> next_ofd w),
                  next_fd := next_fd w + 1\<rparr>"
  have op: "posix_open (checkpoint_filename c @ ''.bak'') True True w = (next_fd w, wb)"
    using p i by (simp add: posix_open_def c wb_def)
  have r: "rd 3 0 wb []"
    using f e i n by (simp add: rd_def wb_def)
  have rs: "read_scalar 3 8 wb = (Inl checkpoint_read_success_failure, wb)"
    using read_scalar_short [OF r, of 8] by simp
  have ne: "next_fd w \<noteq> -1" using n by simp
  have cl: "clean cs fresh 0 c w = Some (Inl checkpoint_read_success_failure, wb)"
    using ne by (simp add: clean_def op Let_def) (simp add: c read_with_success_def rs)
  have op2: "posix_open (checkpoint_filename c @ ''.bak'') True True wb = (-1, wb)"
    using p by (simp add: posix_open_def c wb_def)
  have cl2: "clean cs fresh 0 c wb
      = Some (Inl (runtime_error
           ''Failed to open the new checkpoint when cleaning the checkpoint''), wb)"
    by (simp add: clean_def op2 Let_def) (simp add: c)
  have "paths wb ''run.ckp.bak'' = Some 1" "inodes wb 1 = []"
    "paths wb ''run.ckp'' = Some 0" "inodes wb 0 = inodes w 0"
    using p by (simp_all add: wb_def)
  then show ?thesis
    using cl cl2 by blast
qed

subsection \<open>Writing and reading strings\<close>

text \<open>
  C7, short-write detection, at the string \<open>ab\<close> on a file system with room for nine more
  bytes. The write of the size transfers its 8 bytes; the write of the characters
  transfers one byte of the two requested. \<open>write<std::string>\<close> throws nothing: it
  returns 9, and the file holds the size 2 followed by the single byte \<open>a\<close>.
\<close>

theorem write_string_short_payload_returns:
  "(case posix_open ''run.ckp'' True False (boot_world\<lparr>quota := Some 9\<rparr>) of (fd, w) \<Rightarrow>
     (case posix_write fd (bytes_of_u64 2) w of (r1, w1) \<Rightarrow>
       (case posix_write fd [97, 98] w1 of (r2, w2) \<Rightarrow>
          r1 = 8 \<and> r2 = 1 \<and> r2 < int (length [97, 98 :: byte])
          \<and> write_string fd [97, 98] w = (Inr 9, w2)
          \<and> inodes w2 0 = [2, 0, 0, 0, 0, 0, 0, 0, 97])))"
  by (simp add: run_simps write_string_def)

text \<open>
  C4, the round trip of strings, at two inputs. The string \<open>a\<close>, zero byte, \<open>b\<close> is
  written, all 11 bytes of it, and read back from the start of the file into an empty
  string: the result is \<open>a\<close>. The empty string is written and read back into a string
  that holds \<open>old\<close>: the result is \<open>old\<close>, not the empty string.
\<close>

theorem read_string_after_write_string_differs:
  "(case posix_open ''f'' True False boot_world of (fd, w) \<Rightarrow>
     (case write_string fd [97, 0, 98] w of (r, w1) \<Rightarrow>
       (case posix_lseek fd 0 SEEK_SET w1 of (p, w2) \<Rightarrow>
         (case read_string fd [] w2 of (r', str, w3) \<Rightarrow>
            r = Inr 11 \<and> r' = Inr 11 \<and> str = [97] \<and> str \<noteq> [97, 0, 98]))))
   \<and> (case posix_open ''f'' True False boot_world of (fd, w) \<Rightarrow>
     (case write_string fd [] w of (r, w1) \<Rightarrow>
       (case posix_lseek fd 0 SEEK_SET w1 of (p, w2) \<Rightarrow>
         (case read_string fd [111, 108, 100] w2 of (r', str, w3) \<Rightarrow>
            r = Inr 8 \<and> r' = Inr 8 \<and> str = [111, 108, 100] \<and> str \<noteq> []))))"
  by (simp add: run_simps write_string_def read_string_def)

subsection \<open>Moving and destroying\<close>

text \<open>
  C6, move transfer, at the log opened for the prefix \<open>run\<close> on the empty machine, which
  holds descriptor 3. After the move constructor the source still holds descriptor 3, as
  the destination does; the destructor of the destination closes it, and the destructor
  of the source calls \<open>close\<close> on descriptor 3 once more, which fails. The move assignment
  to a second log, which holds descriptor 4, does the same, and descriptor 4 stays open.
\<close>

theorem move_keeps_descriptor_in_source:
  "(case checkpoint_t_ctor ''run'' boot_world of
      (Inl e, w) \<Rightarrow> False
    | (Inr c, w) \<Rightarrow>
        (case checkpoint_t_move False c of (dst, src) \<Rightarrow>
           file_descriptor src = 3 \<and> file_descriptor dst = 3
           \<and> (case checkpoint_t_dtor dst w of (r1, w1) \<Rightarrow>
                (case checkpoint_t_dtor src w1 of (r2, w2) \<Rightarrow> r1 = 0 \<and> r2 = -1))))
   \<and> (case checkpoint_t_ctor ''run'' boot_world of
      (Inl e, w) \<Rightarrow> False
    | (Inr c, w) \<Rightarrow>
        (case checkpoint_t_ctor ''other'' w of
           (Inl e, w') \<Rightarrow> False
         | (Inr d, w') \<Rightarrow>
             (case checkpoint_t_move_assign d c of (dst, src) \<Rightarrow>
                file_descriptor d = 4 \<and> file_descriptor src = 3 \<and> file_descriptor dst = 3
                \<and> (case checkpoint_t_dtor dst w' of (r1, w1) \<Rightarrow>
                     (case checkpoint_t_dtor src w1 of (r2, w2) \<Rightarrow>
                        r1 = 0 \<and> r2 = -1 \<and> fds w2 4 \<noteq> None)))))"
  by (simp add: run_simps checkpoint_t_ctor_def checkpoint_t_move_def
      checkpoint_t_move_assign_def checkpoint_t_dtor_def)

subsection \<open>A log whose file did not exist\<close>

text \<open>
  C10: when no file exists at the path at construction, \<open>load_options\<close> returns without
  an exception, and neither the options of the caller nor the machine change: no file is
  opened or read.
\<close>

theorem load_options_fresh:
  assumes "paths w0 (prfx @ ''.ckp'') = None"
    and "fst (checkpoint_t_ctor prfx w0) = Inr c"
  shows "load_options c options w = (Inr (), options, w)"
proof -
  have "\<not> existing_results c"
    using assms
    by (auto simp: checkpoint_t_ctor_def posix_access_def Let_def
        split: prod.splits if_splits)
  then show ?thesis
    by (simp add: load_options_def)
qed

theorem load_options_fresh_witness:
  "paths boot_world (''run'' @ ''.ckp'') = None
   \<and> fst (checkpoint_t_ctor ''run'' boot_world)
       = Inr \<lparr>checkpoint_filename = ''run.ckp'', existing_results = False, file_descriptor = 3\<rparr>
   \<and> load_options
        \<lparr>checkpoint_filename = ''run.ckp'', existing_results = False, file_descriptor = 3\<rparr>
        (default_options\<lparr>prefix := [114, 117, 110], seed := 42\<rparr>)
        (boot_world\<lparr>quota := Some 5\<rparr>)
       = (Inr (), default_options\<lparr>prefix := [114, 117, 110], seed := 42\<rparr>,
          boot_world\<lparr>quota := Some 5\<rparr>)"
proof -
  have a: "paths boot_world (''run'' @ ''.ckp'') = None"
    by (simp add: boot_world_def)
  have b: "fst (checkpoint_t_ctor ''run'' boot_world)
       = Inr \<lparr>checkpoint_filename = ''run.ckp'', existing_results = False, file_descriptor = 3\<rparr>"
    by (simp add: run_simps checkpoint_t_ctor_def)
  show ?thesis
    using a b load_options_fresh [OF a b] by simp
qed

subsection \<open>Saving the options\<close>



subsection \<open>The mode of a log\<close>

text \<open>
  C9: \<open>existing_checkpoint\<close> of a constructed log tells whether the path existed before
  the constructor opened it, and after any sequence of operations on the log that
  returns it tells the same. In particular, when the path did not exist,
  \<open>existing_checkpoint\<close> is false after the sequence, whatever was saved and appended in
  it, and \<open>clean\<close> returns at once, for any rank, with the machine as it was.
\<close>

theorem existing_results_fixed:
  assumes "fst (checkpoint_t_ctor prfx w0) = Inr c0"
    and "run cs fresh calls (c0, snd (checkpoint_t_ctor prfx w0)) = Some (c, w)"
  shows "existing_checkpoint c0 = (paths w0 (prfx @ ''.ckp'') \<noteq> None)
       \<and> existing_checkpoint c = existing_checkpoint c0
       \<and> (paths w0 (prfx @ ''.ckp'') = None \<longrightarrow>
            \<not> existing_checkpoint c \<and> clean cs fresh rank c w = Some (Inr (), w))"
  using ctor_existing_results [OF assms(1)] run_existing_results [OF assms(2)]
  by (simp add: existing_checkpoint_def clean_def)

theorem existing_results_fixed_witness:
  "fst (checkpoint_t_ctor ''run'' boot_world) = Inr \<lparr>checkpoint_filename = ''run.ckp'', existing_results = False, file_descriptor = 3\<rparr>
   \<and> run byte_sum \<lparr>root_id = 0, payload = 0\<rparr>
         [SaveOptions default_options, Write \<lparr>root_id = 1, payload = 10\<rparr>, ExistingCheckpoint, Clean 0]
         (\<lparr>checkpoint_filename = ''run.ckp'', existing_results = False, file_descriptor = 3\<rparr>, snd (checkpoint_t_ctor ''run'' boot_world))
       = Some (\<lparr>checkpoint_filename = ''run.ckp'', existing_results = False, file_descriptor = 3\<rparr>,
           snd (write_result byte_sum \<lparr>checkpoint_filename = ''run.ckp'', existing_results = False, file_descriptor = 3\<rparr>
                  \<lparr>root_id = 1, payload = 10\<rparr>
                  (snd (save_options \<lparr>checkpoint_filename = ''run.ckp'', existing_results = False, file_descriptor = 3\<rparr>
                          default_options (snd (checkpoint_t_ctor ''run'' boot_world))))))
   \<and> \<not> existing_checkpoint \<lparr>checkpoint_filename = ''run.ckp'', existing_results = False, file_descriptor = 3\<rparr>
   \<and> clean byte_sum \<lparr>root_id = 0, payload = 0\<rparr> 0 \<lparr>checkpoint_filename = ''run.ckp'', existing_results = False, file_descriptor = 3\<rparr>
         (snd (write_result byte_sum \<lparr>checkpoint_filename = ''run.ckp'', existing_results = False, file_descriptor = 3\<rparr>
                  \<lparr>root_id = 1, payload = 10\<rparr>
                  (snd (save_options \<lparr>checkpoint_filename = ''run.ckp'', existing_results = False, file_descriptor = 3\<rparr>
                          default_options (snd (checkpoint_t_ctor ''run'' boot_world))))))
       = Some (Inr (),
           snd (write_result byte_sum \<lparr>checkpoint_filename = ''run.ckp'', existing_results = False, file_descriptor = 3\<rparr>
                  \<lparr>root_id = 1, payload = 10\<rparr>
                  (snd (save_options \<lparr>checkpoint_filename = ''run.ckp'', existing_results = False, file_descriptor = 3\<rparr>
                          default_options (snd (checkpoint_t_ctor ''run'' boot_world))))))"
proof -
  have a: "fst (checkpoint_t_ctor ''run'' boot_world) = Inr \<lparr>checkpoint_filename = ''run.ckp'', existing_results = False, file_descriptor = 3\<rparr>"
    by (simp add: run_simps checkpoint_t_ctor_def)
  have b: "run byte_sum \<lparr>root_id = 0, payload = 0\<rparr>
         [SaveOptions default_options, Write \<lparr>root_id = 1, payload = 10\<rparr>, ExistingCheckpoint, Clean 0]
         (\<lparr>checkpoint_filename = ''run.ckp'', existing_results = False, file_descriptor = 3\<rparr>, snd (checkpoint_t_ctor ''run'' boot_world))
       = Some (\<lparr>checkpoint_filename = ''run.ckp'', existing_results = False, file_descriptor = 3\<rparr>,
           snd (write_result byte_sum \<lparr>checkpoint_filename = ''run.ckp'', existing_results = False, file_descriptor = 3\<rparr>
                  \<lparr>root_id = 1, payload = 10\<rparr>
                  (snd (save_options \<lparr>checkpoint_filename = ''run.ckp'', existing_results = False, file_descriptor = 3\<rparr>
                          default_options (snd (checkpoint_t_ctor ''run'' boot_world))))))"
    by (simp add: clean_def)
  have c: "paths boot_world (''run'' @ ''.ckp'') = None"
    by (simp add: boot_world_def)
  show ?thesis
    using a b c existing_results_fixed [OF a b, of 0] by simp
qed

subsection \<open>Scanning\<close>

text \<open>
  C8: on a log whose file holds a header and the records \<open>old\<close>, the results \<open>new\<close> are
  appended by one call of \<open>checkpoint_t::write\<close> each, in the order of the list. Every
  call returns, and \<open>current_progress\<close> then returns the records \<open>old\<close> followed by \<open>new\<close>,
  in that order; \<open>completed_indicies\<close> returns their identifiers in that order.
\<close>

theorem scan_returns_append_order:
  assumes "fds w (file_descriptor c) = Some k" and "quota w = None"
    and "inodes w (ofd_inode (ofds w k)) = header_bytes cfg @ frames cs old"
    and "sized cfg"
  shows "fst (write_each cs c new w) = Inr ()
       \<and> map_option fst (current_progress cs fresh c (snd (write_each cs c new w)))
           = Some (Inr (old @ new))
       \<and> map_option fst (completed_indicies cs fresh c (snd (write_each cs c new w)))
           = Some (Inr (map root_id old @ map root_id new))"
proof -
  have "wr (file_descriptor c) k w" using assms by (simp add: wr_def)
  then have we: "write_each cs c new w = (Inr (), app k (frames cs new) w)"
    by (rule write_each_wr)
  have f: "fds (app k (frames cs new) w) (file_descriptor c) = Some k"
    using assms(1) by simp
  have i: "inodes (app k (frames cs new) w) (ofd_inode (ofds (app k (frames cs new) w) k))
      = header_bytes cfg @ frames cs (old @ new) @ []"
    using assms(3) by (simp add: frames_append)
  from current_progress_frames [OF f i assms(4), of fresh]
  obtain off where cp: "current_progress cs fresh c (app k (frames cs new) w)
      = Some (Inr (old @ new), after_scan k off (app k (frames cs new) w))"
    by auto
  show ?thesis
    using we cp completed_of_progress [OF cp] by simp
qed

theorem scan_returns_append_order_witness:
  "fds (opened ''run.ckp'' (header_bytes default_options)) 3 = Some 0
   \<and> map_option fst (completed_indicies byte_sum \<lparr>root_id = 0, payload = 0\<rparr>
        \<lparr>checkpoint_filename = ''run.ckp'', existing_results = True, file_descriptor = 3\<rparr>
        (snd (write_each byte_sum \<lparr>checkpoint_filename = ''run.ckp'', existing_results = True, file_descriptor = 3\<rparr>
               [\<lparr>root_id = 3, payload = 30\<rparr>, \<lparr>root_id = 1, payload = 10\<rparr>,
                \<lparr>root_id = 2, payload = 20\<rparr>]
               (opened ''run.ckp'' (header_bytes default_options)))))
      = Some (Inr [3, 1, 2])"
  using scan_returns_append_order [of "opened ''run.ckp'' (header_bytes default_options)"
      "\<lparr>checkpoint_filename = ''run.ckp'', existing_results = True, file_descriptor = 3\<rparr>" 0 default_options byte_sum "[]"
      "[\<lparr>root_id = 3, payload = 30\<rparr>, \<lparr>root_id = 1, payload = 10\<rparr>,
        \<lparr>root_id = 2, payload = 20\<rparr>]" "\<lparr>root_id = 0, payload = 0\<rparr>"]
  by (simp add: fixture_simps frames_def sized_def options_fields_def default_options_def)

text \<open>
  C2: the file of the log holds a header, the frames of the records \<open>rs\<close>, and the first
  \<open>n\<close> bytes of one more frame, \<open>n\<close> being less than the length of a frame.
  \<open>current_progress\<close> returns, without an exception, and its result is \<open>rs\<close>: all complete
  records, and nothing made of the partial one.
\<close>

theorem scan_drops_partial_tail:
  assumes "fds w (file_descriptor c) = Some k"
    and "inodes w (ofd_inode (ofds w k)) = header_bytes cfg @ frames cs rs @ take n (frame cs r)"
    and "n < length (frame cs r)"
    and "sized cfg"
  shows "map_option fst (current_progress cs fresh c w) = Some (Inr rs)"
proof -
  have "n < 32" using assms(3) by simp
  then have t: "take n (frame cs r) = [] \<or> corrupt_record cs (take n (frame cs r))"
    using corrupt_partial_frame [of n cs r] by (cases "n = 0") simp_all
  from current_progress_frames [OF assms(1,2,4) t, of fresh]
  show ?thesis by auto
qed

theorem scan_drops_partial_tail_witness:
  "fds (opened ''run.ckp''
        (header_bytes default_options
         @ frames byte_sum [\<lparr>root_id = 1, payload = 10\<rparr>, \<lparr>root_id = 2, payload = 20\<rparr>]
         @ take 20 (frame byte_sum \<lparr>root_id = 3, payload = 30\<rparr>))) 3 = Some 0
   \<and> (20::nat) < length (frame byte_sum \<lparr>root_id = 3, payload = 30\<rparr>)
   \<and> map_option fst (current_progress byte_sum \<lparr>root_id = 0, payload = 0\<rparr>
        \<lparr>checkpoint_filename = ''run.ckp'', existing_results = True, file_descriptor = 3\<rparr>
        (opened ''run.ckp''
          (header_bytes default_options
           @ frames byte_sum [\<lparr>root_id = 1, payload = 10\<rparr>, \<lparr>root_id = 2, payload = 20\<rparr>]
           @ take 20 (frame byte_sum \<lparr>root_id = 3, payload = 30\<rparr>))))
      = Some (Inr [\<lparr>root_id = 1, payload = 10\<rparr>, \<lparr>root_id = 2, payload = 20\<rparr>])"
  using scan_drops_partial_tail [of "opened ''run.ckp''
          (header_bytes default_options
           @ frames byte_sum [\<lparr>root_id = 1, payload = 10\<rparr>, \<lparr>root_id = 2, payload = 20\<rparr>]
           @ take 20 (frame byte_sum \<lparr>root_id = 3, payload = 30\<rparr>))"
        "\<lparr>checkpoint_filename = ''run.ckp'', existing_results = True, file_descriptor = 3\<rparr>"
        0 default_options byte_sum
        "[\<lparr>root_id = 1, payload = 10\<rparr>, \<lparr>root_id = 2, payload = 20\<rparr>]" 20
        "\<lparr>root_id = 3, payload = 30\<rparr>" "\<lparr>root_id = 0, payload = 0\<rparr>"]
  by (simp add: fixture_simps sized_def options_fields_def default_options_def)

text \<open>
  C3: the file of the log holds a header, the frames of the records \<open>rs\<close>, and then bytes
  whose first record is corrupt, by a short read or by a checksum that does not match.
  \<open>current_progress\<close> and \<open>completed_indicies\<close> return without an exception; the one
  returns \<open>rs\<close>, the records before the corruption, the other their identifiers.
\<close>

theorem scan_stops_at_corruption:
  assumes "fds w (file_descriptor c) = Some k"
    and "inodes w (ofd_inode (ofds w k)) = header_bytes cfg @ frames cs rs @ tail"
    and "corrupt_record cs tail"
    and "sized cfg"
  shows "map_option fst (current_progress cs fresh c w) = Some (Inr rs)
       \<and> map_option fst (completed_indicies cs fresh c w) = Some (Inr (map root_id rs))"
proof -
  from current_progress_frames [OF assms(1,2,4), of fresh] assms(3)
  obtain off where cp: "current_progress cs fresh c w = Some (Inr rs, after_scan k off w)"
    by auto
  show ?thesis
    using cp completed_of_progress [OF cp] by simp
qed

theorem scan_stops_at_corruption_witness:
  "corrupt_record byte_sum
     (frame (\<lambda>bs. byte_sum bs + 1) \<lparr>root_id = 3, payload = 30\<rparr> @ frame byte_sum \<lparr>root_id = 2, payload = 20\<rparr>)
   \<and> map_option fst (completed_indicies byte_sum \<lparr>root_id = 0, payload = 0\<rparr>
        \<lparr>checkpoint_filename = ''run.ckp'', existing_results = True, file_descriptor = 3\<rparr>
        (opened ''run.ckp''
          (header_bytes default_options
           @ frames byte_sum [\<lparr>root_id = 1, payload = 10\<rparr>]
           @ frame (\<lambda>bs. byte_sum bs + 1) \<lparr>root_id = 3, payload = 30\<rparr>
           @ frame byte_sum \<lparr>root_id = 2, payload = 20\<rparr>)))
      = Some (Inr [1])"
proof -
  have a: "corrupt_record byte_sum
     (frame (\<lambda>bs. byte_sum bs + 1) \<lparr>root_id = 3, payload = 30\<rparr> @ frame byte_sum \<lparr>root_id = 2, payload = 20\<rparr>)"
    by (rule corrupt_wrong_checksum) simp
  have b: "fds (opened ''run.ckp''
          (header_bytes default_options
           @ frames byte_sum [\<lparr>root_id = 1, payload = 10\<rparr>]
           @ frame (\<lambda>bs. byte_sum bs + 1) \<lparr>root_id = 3, payload = 30\<rparr>
           @ frame byte_sum \<lparr>root_id = 2, payload = 20\<rparr>)) 3 = Some 0"
    by (simp add: fixture_simps)
  have c: "sized default_options"
    by (simp add: sized_def options_fields_def default_options_def)
  show ?thesis
    using a scan_stops_at_corruption [of _ "\<lparr>checkpoint_filename = ''run.ckp'', existing_results = True, file_descriptor = 3\<rparr>"
        0 default_options byte_sum "[\<lparr>root_id = 1, payload = 10\<rparr>]" _ "\<lparr>root_id = 0, payload = 0\<rparr>", OF _ _ a c] b
    by (simp add: fixture_simps)
qed

subsection \<open>Cleaning\<close>

text \<open>
  When \<open>clean\<close> is the first call on a log that was just opened, the offset of its
  descriptor is 0 and the compaction works. The file at the path of the log exists and
  holds the header of a configuration whose texts are C strings, followed by the frames
  of the records \<open>rs\<close>; there is no backup file, both paths may be opened, and no quota
  limits the writes. Then the constructor returns a log in resume mode, \<open>clean\<close> on rank 0
  returns without an exception, and \<open>current_progress\<close> on the log returns \<open>rs\<close>. After
  \<open>clean\<close> the path of the log names a file with the same header and the same frames,
  the backup path names nothing, and \<open>current_progress\<close> after \<open>reload\<close>, which reads that
  file, returns \<open>rs\<close> as well.
\<close>

lemma clean_first_call_then_scan:
  assumes p: "paths w0 (prfx @ ''.ckp'') = Some i"
    and ilt: "i < next_inode w0"
    and content: "inodes w0 i = header_bytes cfg @ frames cs rs"
    and cstr: "c_strings cfg"
    and op: "openable w0 (prfx @ ''.ckp'')"
    and ob: "openable w0 (prfx @ ''.ckp.bak'')"
    and nb: "paths w0 (prfx @ ''.ckp.bak'') = None"
    and q: "quota w0 = None"
    and nfd: "0 \<le> next_fd w0"
  shows "\<exists>c w1 w2 w3.
           checkpoint_t_ctor prfx w0 = (Inr c, w1) \<and> existing_checkpoint c
         \<and> clean cs fresh 0 c w1 = Some (Inr (), w2)
         \<and> current_progress cs fresh c w2 = Some (Inr rs, w3)
         \<and> (\<exists>j. paths w2 (prfx @ ''.ckp'') = Some j
                 \<and> inodes w2 j = header_bytes cfg @ frames cs rs)
         \<and> paths w2 (prfx @ ''.ckp.bak'') = None
         \<and> (\<exists>c' w4 w5. reload c w2 = (Inr (), c', w4)
                 \<and> current_progress cs fresh c' w4 = Some (Inr rs, w5))"
proof -
  define fd0 where "fd0 = next_fd w0"
  define k0 where "k0 = next_ofd w0"
  define j where "j = next_inode w0"
  define c where "c = \<lparr>checkpoint_filename = prfx @ ''.ckp'', existing_results = True,
                        file_descriptor = fd0\<rparr>"
  define w1 where "w1 = w0\<lparr>ofds := (ofds w0)(k0 := \<lparr>ofd_inode = i, ofd_offset = 0\<rparr>),
                  next_ofd := k0 + 1, fds := (fds w0)(fd0 \<mapsto> k0), next_fd := fd0 + 1\<rparr>"
  define wb where "wb = w1\<lparr>paths := (paths w1)(prfx @ ''.ckp.bak'' \<mapsto> j),
                  inodes := (inodes w1)(j := []),
                  next_inode := j + 1,
                  ofds := (ofds w1)(k0 + 1 := \<lparr>ofd_inode = j, ofd_offset = 0\<rparr>),
                  next_ofd := k0 + 1 + 1,
                  fds := (fds w1)(fd0 + 1 \<mapsto> k0 + 1),
                  next_fd := fd0 + 1 + 1\<rparr>"
  define h where "h = header_bytes cfg"
  have ij: "i \<noteq> j" using ilt by (simp add: j_def)
  have ctor: "checkpoint_t_ctor prfx w0 = (Inr c, w1)"
    using p op nfd
    by (simp add: checkpoint_t_ctor_def posix_access_def posix_open_def c_def w1_def
        fd0_def k0_def Let_def)
  have ex: "existing_checkpoint c" by (simp add: existing_checkpoint_def c_def)
  have ob': "posix_open (checkpoint_filename c @ ''.bak'') True True w1 = (fd0 + 1, wb)"
    using ob nb
    by (simp add: posix_open_def c_def w1_def wb_def j_def)
  have ne: "fd0 + 1 \<noteq> -1" using nfd by (simp add: fd0_def)
  \<comment> \<open>the header is read from the log's descriptor\<close>
  have r0: "rd fd0 k0 wb (h @ frames cs rs)"
    using content ij by (simp add: rd_def wb_def w1_def h_def)
  have rh: "read_with_success fd0 default_options wb
      = (Inr (8 + options_size cfg), read_back default_options cfg, skip k0 (length h) wb)"
    using read_with_success_rd [OF r0 [unfolded h_def] c_strings_sized [OF cstr]]
    by (simp add: h_def)
  define w3 where "w3 = skip k0 (length h) wb"
  have wr3: "wr (fd0 + 1) (k0 + 1) w3"
    using q by (simp add: wr_def w3_def wb_def w1_def)
  have wh: "write_with_success (fd0 + 1) (read_back default_options cfg) w3
      = (Inr (8 + options_size (read_back default_options cfg)), app (k0 + 1) h w3)"
    using write_with_success_wr [OF wr3 sized_read_back [OF cstr]]
    by (simp add: header_bytes_read_back [OF cstr] h_def)
  define w4 where "w4 = app (k0 + 1) h w3"
  have f4: "fds w4 (file_descriptor c) = Some k0"
    by (simp add: w4_def w3_def wb_def w1_def c_def)
  have i4k: "ofd_inode (ofds w4 k0) = i" "ofd_inode (ofds w4 (k0 + 1)) = j"
    by (simp_all add: w4_def w3_def wb_def w1_def)
  have i4: "inodes w4 (ofd_inode (ofds w4 k0)) = header_bytes cfg @ frames cs rs @ []"
    using content ij by (simp add: i4k) (simp add: w4_def w3_def wb_def w1_def)
  from current_progress_frames [OF f4 i4 c_strings_sized [OF cstr], of fresh]
  obtain off where cp: "current_progress cs fresh c w4 = Some (Inr rs, after_scan k0 off w4)"
    by auto
  define w5 where "w5 = after_scan k0 off w4"
  have wr5: "wr (fd0 + 1) (k0 + 1) w5"
    using q by (simp add: wr_def w5_def w4_def w3_def wb_def w1_def)
  have wrs: "write_results cs (fd0 + 1) rs w5 = (Inr (), app (k0 + 1) (frames cs rs) w5)"
    using wr5 by (rule write_results_wr)
  define w6 where "w6 = app (k0 + 1) (frames cs rs) w5"
  define w7 where "w7 = w6\<lparr>fds := (fds w6)(fd0 + 1 := None)\<rparr>"
  define w8 where "w8 = w7\<lparr>paths := (paths w7)(prfx @ ''.ckp.bak'' := None, prfx @ ''.ckp'' \<mapsto> j)\<rparr>"
  have cl: "posix_close (fd0 + 1) w6 = (0, w7)"
    by (simp add: posix_close_def w7_def) (simp add: w6_def w5_def w4_def w3_def wb_def w1_def)
  have pb7: "paths w7 (prfx @ ''.ckp.bak'') = Some j"
    by (simp add: w7_def w6_def w5_def w4_def w3_def wb_def)
  have rn: "posix_rename (checkpoint_filename c @ ''.bak'') (checkpoint_filename c) w7 = (0, w8)"
    using pb7 by (simp add: posix_rename_def w8_def c_def)
  have cln: "clean cs fresh 0 c w1 = Some (Inr (), w8)"
  proof -
    have fc: "existing_results c" "checkpoint_filename c = prfx @ ''.ckp''" "file_descriptor c = fd0"
      by (simp_all add: c_def)
    show ?thesis
      unfolding clean_def Let_def
      apply (simp only: fc(1) not_True_eq_False if_False if_True refl)
      apply (simp only: ob' prod.case ne if_False)
      apply (simp only: fc(3) rh prod.case sum.case w3_def [symmetric] wh)
      apply (simp only: w4_def [symmetric] cp option.case prod.case sum.case)
      apply (simp only: w5_def [symmetric] wrs w6_def [symmetric] cl prod.case sum.case)
      apply (simp only: rn prod.case)
      done
  qed
  have i6k: "ofd_inode (ofds w5 (k0 + 1)) = j" "ofd_inode (ofds w3 (k0 + 1)) = j"
    by (simp_all add: w5_def w4_def w3_def wb_def w1_def)
  have newfile: "inodes w8 j = header_bytes cfg @ frames cs rs"
  proof -
    have "inodes w3 j = []" by (simp add: w3_def wb_def)
    then have "inodes w4 j = h" using i6k by (simp add: w4_def)
    then have "inodes w5 j = h" by (simp add: w5_def)
    then have "inodes w6 j = h @ frames cs rs" using i6k by (simp add: w6_def)
    then show ?thesis by (simp add: w8_def w7_def h_def)
  qed
  have p8: "paths w8 (prfx @ ''.ckp'') = Some j" "paths w8 (prfx @ ''.ckp.bak'') = None"
    by (simp_all add: w8_def)
  have f8: "fds w8 (file_descriptor c) = Some k0"
    by (simp add: w8_def w7_def w6_def w5_def w4_def w3_def wb_def w1_def c_def)
  have i8k: "ofd_inode (ofds w8 k0) = i"
    by (simp add: w8_def w7_def w6_def w5_def w4_def w3_def wb_def w1_def)
  have i8: "inodes w8 (ofd_inode (ofds w8 k0)) = header_bytes cfg @ frames cs rs @ []"
    using content ij
    using i6k by (simp add: i8k) (simp add: w8_def w7_def w6_def w5_def w4_def w3_def wb_def w1_def)
  from current_progress_frames [OF f8 i8 c_strings_sized [OF cstr], of fresh]
  obtain off' where cp8: "current_progress cs fresh c w8 = Some (Inr rs, after_scan k0 off' w8)"
    by auto
  define w9 where "w9 = w8\<lparr>fds := (fds w8)(fd0 := None)\<rparr>"
  define w10 where "w10 = w9\<lparr>ofds := (ofds w9)(next_ofd w9 := \<lparr>ofd_inode = j, ofd_offset = 0\<rparr>),
                  next_ofd := next_ofd w9 + 1,
                  fds := (fds w9)(next_fd w9 \<mapsto> next_ofd w9),
                  next_fd := next_fd w9 + 1\<rparr>"
  define c' where "c' = c\<lparr>file_descriptor := next_fd w9\<rparr>"
  have o8: "openable w8 (prfx @ ''.ckp'')"
    using op by (simp add: w8_def w7_def w6_def w5_def w4_def w3_def wb_def w1_def)
  have n8: "next_fd w8 = fd0 + 3"
    by (simp add: w8_def w7_def w6_def w5_def w4_def w3_def wb_def w1_def)
  have c8: "posix_close (file_descriptor c) w8 = (0, w9)"
    using f8 by (simp add: posix_close_def w9_def c_def)
  have o9: "posix_open (checkpoint_filename c) True False w9 = (next_fd w9, w10)"
    using o8 p8 by (simp add: posix_open_def w9_def w10_def c_def)
  have "next_fd w9 \<noteq> -1"
    using n8 nfd by (simp add: w9_def fd0_def)
  then have rl: "reload c w8 = (Inr (), c', w10)"
    by (simp add: reload_def c8 o9 c'_def)
  have f10: "fds w10 (file_descriptor c') = Some (next_ofd w9)"
    by (simp add: w10_def c'_def)
  have i10: "inodes w10 (ofd_inode (ofds w10 (next_ofd w9))) = header_bytes cfg @ frames cs rs @ []"
    using newfile by (simp add: w10_def w9_def)
  from current_progress_frames [OF f10 i10 c_strings_sized [OF cstr], of fresh]
  obtain off'' where cp10: "current_progress cs fresh c' w10
      = Some (Inr rs, after_scan (next_ofd w9) off'' w10)"
    by auto
  show ?thesis
    using ctor ex cln cp8 newfile p8 rl cp10 by blast
qed

text \<open>
  C1, compaction, at the file that holds the header of the default configuration and the
  records with the identifiers 1, 2 and 3. The log is opened in resume mode and
  \<open>completed_indicies\<close> returns 1, 2, 3. The scan went through a duplicate of the
  descriptor of the log, which shares its offset, and left it at the end of the file.
  \<open>clean\<close> on rank 0 creates the backup file and reads the header from the descriptor of
  the log at that offset: it throws, where the claim has it return with the records kept.
  The backup file stays behind, empty, under its own name, the path of the log still
  names the old file, and every further \<open>clean\<close> fails to create the backup. The same
  happens when a record is appended before \<open>clean\<close>: the append leaves the offset at the
  end of the file too.
\<close>

theorem clean_after_scan_throws:
  "(case checkpoint_t_ctor ''run''
           (disk_with ''run.ckp''
              (header_bytes default_options
               @ frames byte_sum [\<lparr>root_id = 1, payload = 10\<rparr>, \<lparr>root_id = 2, payload = 20\<rparr>,
                    \<lparr>root_id = 3, payload = 30\<rparr>])) of
      (Inl e, w) \<Rightarrow> False
    | (Inr c, w) \<Rightarrow>
        (case completed_indicies byte_sum \<lparr>root_id = 0, payload = 0\<rparr> c w of
           None \<Rightarrow> False
         | Some (Inl e, w1) \<Rightarrow> False
         | Some (Inr ids, w1) \<Rightarrow>
             ids = [1, 2, 3]
             \<and> (case clean byte_sum \<lparr>root_id = 0, payload = 0\<rparr> 0 c w1 of
                  None \<Rightarrow> False
                | Some (Inr u, w2) \<Rightarrow> False
                | Some (Inl e, w2) \<Rightarrow>
                    e = checkpoint_read_success_failure
                    \<and> paths w2 ''run.ckp.bak'' = Some 1 \<and> inodes w2 1 = []
                    \<and> paths w2 ''run.ckp'' = Some 0
                    \<and> clean byte_sum \<lparr>root_id = 0, payload = 0\<rparr> 0 c w2
                        = Some (Inl (runtime_error
                            ''Failed to open the new checkpoint when cleaning the checkpoint''),
                                w2))))
   \<and> (case checkpoint_t_ctor ''run''
           (disk_with ''run.ckp''
              (header_bytes default_options
               @ frames byte_sum [\<lparr>root_id = 1, payload = 10\<rparr>, \<lparr>root_id = 2, payload = 20\<rparr>,
                    \<lparr>root_id = 3, payload = 30\<rparr>])) of
      (Inl e, w) \<Rightarrow> False
    | (Inr c, w) \<Rightarrow>
        (case write_result byte_sum c \<lparr>root_id = 4, payload = 40\<rparr> w of
           (Inl e, w1) \<Rightarrow> False
         | (Inr u, w1) \<Rightarrow>
             (case clean byte_sum \<lparr>root_id = 0, payload = 0\<rparr> 0 c w1 of
                None \<Rightarrow> False
              | Some (Inr u, w2) \<Rightarrow> False
              | Some (Inl e, w2) \<Rightarrow>
                  e = checkpoint_read_success_failure
                  \<and> paths w2 ''run.ckp.bak'' = Some 1 \<and> inodes w2 1 = []
                  \<and> paths w2 ''run.ckp'' = Some 0)))"
proof -
  define C0 where "C0 = header_bytes default_options
       @ frames byte_sum [\<lparr>root_id = 1, payload = 10\<rparr>, \<lparr>root_id = 2, payload = 20\<rparr>,
            \<lparr>root_id = 3, payload = 30\<rparr>]"
  define c where "c = \<lparr>checkpoint_filename = ''run.ckp'', existing_results = True,
       file_descriptor = 3\<rparr>"
  define w where "w = opened ''run.ckp'' C0"
  have ctor: "checkpoint_t_ctor ''run'' (disk_with ''run.ckp'' C0) = (Inr c, w)"
    by (simp add: ctor_disk c_def w_def)
  have f: "fds w (file_descriptor c) = Some 0"
    by (simp add: w_def c_def fixture_simps)
  have i: "inodes w (ofd_inode (ofds w 0)) = header_bytes default_options
       @ frames byte_sum [\<lparr>root_id = 1, payload = 10\<rparr>, \<lparr>root_id = 2, payload = 20\<rparr>,
            \<lparr>root_id = 3, payload = 30\<rparr>]"
    by (simp add: w_def fixture_simps C0_def)
  define w1 where "w1 = after_scan 0 (length C0) w"
  have ci: "completed_indicies byte_sum \<lparr>root_id = 0, payload = 0\<rparr> c w
      = Some (Inr [1, 2, 3], w1)"
    using completed_of_progress [OF current_progress_end [OF f i sized_default]]
    by (simp add: w1_def C0_def)
  have "\<exists>w'. clean byte_sum \<lparr>root_id = 0, payload = 0\<rparr> 0 c w1
             = Some (Inl checkpoint_read_success_failure, w')
           \<and> paths w' ''run.ckp.bak'' = Some 1 \<and> inodes w' 1 = []
           \<and> paths w' ''run.ckp'' = Some 0 \<and> inodes w' 0 = inodes w1 0
           \<and> clean byte_sum \<lparr>root_id = 0, payload = 0\<rparr> 0 c w'
               = Some (Inl (runtime_error
                   ''Failed to open the new checkpoint when cleaning the checkpoint''), w')"
    by (rule clean_at_end_of_file) (simp_all add: c_def w1_def w_def fixture_simps)
  then obtain w2 where a: "clean byte_sum \<lparr>root_id = 0, payload = 0\<rparr> 0 c w1
             = Some (Inl checkpoint_read_success_failure, w2)"
      "paths w2 ''run.ckp.bak'' = Some 1" "inodes w2 1 = []" "paths w2 ''run.ckp'' = Some 0"
      "clean byte_sum \<lparr>root_id = 0, payload = 0\<rparr> 0 c w2
               = Some (Inl (runtime_error
                   ''Failed to open the new checkpoint when cleaning the checkpoint''), w2)"
    by blast
  have wrw: "wr (file_descriptor c) 0 w"
    by (simp add: wr_def w_def c_def fixture_simps)
  define v1 where "v1 = app 0 (frame byte_sum \<lparr>root_id = 4, payload = 40\<rparr>) w"
  have wres: "write_result byte_sum c \<lparr>root_id = 4, payload = 40\<rparr> w = (Inr (), v1)"
    by (simp add: write_result_def write_with_checksum_wr [OF wrw] v1_def)
  have "\<exists>w'. clean byte_sum \<lparr>root_id = 0, payload = 0\<rparr> 0 c v1
             = Some (Inl checkpoint_read_success_failure, w')
           \<and> paths w' ''run.ckp.bak'' = Some 1 \<and> inodes w' 1 = []
           \<and> paths w' ''run.ckp'' = Some 0 \<and> inodes w' 0 = inodes v1 0
           \<and> clean byte_sum \<lparr>root_id = 0, payload = 0\<rparr> 0 c w'
               = Some (Inl (runtime_error
                   ''Failed to open the new checkpoint when cleaning the checkpoint''), w')"
    by (rule clean_at_end_of_file)
       (simp_all add: c_def v1_def w_def fixture_simps app_def append_data_def Let_def)
  then obtain v2 where b: "clean byte_sum \<lparr>root_id = 0, payload = 0\<rparr> 0 c v1
             = Some (Inl checkpoint_read_success_failure, v2)"
      "paths v2 ''run.ckp.bak'' = Some 1" "inodes v2 1 = []" "paths v2 ''run.ckp'' = Some 0"
    by blast
  show ?thesis
    using a(3) b(3) by (simp add: ctor [unfolded C0_def] ci a(1,2,4,5) wres b(1,2,4))
qed

end
